theory Spec2Isabelle
  imports Complex_Main
begin

section \<open>Arrays and errors\<close>

text \<open>
  The post-processing code of pyQCD is Python 2 on top of numpy (imported through
  \<open>pylab\<close> as \<open>pl\<close>).  A numpy array is modelled by its shape and the function
  from index tuples to elements; only indices inside the shape are ever read.  The
  float64 arithmetic of numpy is idealised as arithmetic on \<open>real\<close> (and \<open>complex\<close>).
  Python exceptions are values: every operation that can raise returns
  \<open>error + 'a\<close>, with \<open>Inl\<close> for the exception.
\<close>

datatype error =
    NameError | ZeroDivisionError | IndexError | ValueError | KeyError | AxisError | TypeError
  | InvalidArgument
    \<comment> \<open>the error kind named by the specification; no statement of the source raises it\<close>

record 'a ndarray =
  shape :: "nat list"
  item :: "nat list \<Rightarrow> 'a"

text \<open>Sequencing of computations that may raise.\<close>

definition bind :: "error + 'a \<Rightarrow> ('a \<Rightarrow> error + 'b) \<Rightarrow> error + 'b" where
  "bind m f = (case m of Inl e \<Rightarrow> Inl e | Inr v \<Rightarrow> f v)"

text \<open>\<open>pl.array(xs)\<close> of a flat Python list, and \<open>a.tolist()\<close> of a one-dimensional array.\<close>

definition array1 :: "'a list \<Rightarrow> 'a ndarray" where
  "array1 xs = \<lparr>shape = [length xs], item = (\<lambda>idx. xs ! hd idx)\<rparr>"

definition tolist1 :: "'a ndarray \<Rightarrow> 'a list" where
  "tolist1 A = map (\<lambda>i. item A [i]) [0..<hd (shape A)]"

text \<open>\<open>pl.size(A, axis = 0)\<close>: a zero-dimensional array has no axis 0.\<close>

definition size0 :: "'a ndarray \<Rightarrow> error + nat" where
  "size0 A = (case shape A of [] \<Rightarrow> Inl IndexError | n # _ \<Rightarrow> Inr n)"

text \<open>\<open>A[i]\<close> for \<open>i\<close> in range, and the slice \<open>A[lo:hi]\<close> of the leading axis: a
  negative bound counts from the end, and both bounds are clamped to the axis.\<close>

definition sub :: "'a ndarray \<Rightarrow> nat \<Rightarrow> 'a ndarray" where
  "sub A i = \<lparr>shape = tl (shape A), item = (\<lambda>idx. item A (i # idx))\<rparr>"

definition slice_bound :: "nat \<Rightarrow> int \<Rightarrow> nat" where
  "slice_bound n b = (if b < 0 then nat (max 0 (b + int n)) else min (nat b) n)"

definition slice0 :: "'a ndarray \<Rightarrow> int \<Rightarrow> int \<Rightarrow> 'a ndarray" where
  "slice0 A lo hi =
     (let n = hd (shape A); l = slice_bound n lo; h = slice_bound n hi
      in \<lparr>shape = (h - l) # tl (shape A),
          item = (\<lambda>idx. item A ((l + hd idx) # tl idx))\<rparr>)"

text \<open>\<open>pl.mean(A, axis = 0)\<close>.  For an empty leading axis numpy gives nan and a
  warning, not an exception; no claim below reads the model's value there.\<close>

definition mean0 :: "real ndarray \<Rightarrow> real ndarray" where
  "mean0 A =
     \<lparr>shape = tl (shape A),
      item = (\<lambda>idx. (\<Sum>k\<leftarrow>[0..<hd (shape A)]. item A (k # idx)) / real (hd (shape A)))\<rparr>"

text \<open>\<open>pl.zeros(dims)\<close>: a negative dimension is a \<open>ValueError\<close>.\<close>

definition zeros :: "int list \<Rightarrow> error + real ndarray" where
  "zeros dims =
     (if list_ex (\<lambda>d. d < 0) dims then Inl ValueError
      else Inr \<lparr>shape = map nat dims, item = (\<lambda>_. 0)\<rparr>)"

text \<open>The assignment \<open>A[i] = V\<close> for a row index \<open>i\<close>.  numpy broadcasts \<open>V\<close> to the
  shape of the row: leading axes of length one in excess of the row's rank are dropped,
  and then every axis of \<open>V\<close> has the length of the row's axis or length one.\<close>

fun strip_ones :: "nat list \<Rightarrow> nat \<Rightarrow> nat list" where
  "strip_ones (d # ds) r = (if r < length (d # ds) \<and> d = 1 then strip_ones ds r else d # ds)"
| "strip_ones [] r = []"

definition broadcastable :: "nat list \<Rightarrow> nat list \<Rightarrow> bool" where
  "broadcastable vs ts =
     (let vs' = strip_ones vs (length ts)
      in length vs' \<le> length ts \<and>
         list_all2 (\<lambda>v t. v = t \<or> v = 1) vs' (drop (length ts - length vs') ts))"

definition bc_index :: "nat list \<Rightarrow> nat list \<Rightarrow> nat list" where
  "bc_index vs idx =
     (let lead = replicate (length vs - length (strip_ones vs (length idx))) 0;
          vs' = strip_ones vs (length idx)
      in lead @ map2 (\<lambda>v i. if v = 1 then 0 else i) vs' (drop (length idx - length vs') idx))"

definition setitem0 :: "'a ndarray \<Rightarrow> nat \<Rightarrow> 'a ndarray \<Rightarrow> error + 'a ndarray" where
  "setitem0 A i V =
     (case shape A of
        [] \<Rightarrow> Inl IndexError
      | n # ts \<Rightarrow>
          if \<not> i < n then Inl IndexError
          else if \<not> broadcastable (shape V) ts then Inl ValueError
          else Inr (A\<lparr>item :=
                 (\<lambda>idx. if idx \<noteq> [] \<and> hd idx = i then item V (bc_index (shape V) (tl idx))
                        else item A idx)\<rparr>))"

text \<open>The loop \<open>for i in is: A[i] = f(i)\<close>, where evaluating \<open>f(i)\<close> may raise.\<close>

fun for_rows ::
  "nat list \<Rightarrow> (nat \<Rightarrow> error + 'a ndarray) \<Rightarrow> 'a ndarray \<Rightarrow> error + 'a ndarray" where
  "for_rows [] f A = Inr A"
| "for_rows (i # rest) f A = bind (f i) (\<lambda>V. bind (setitem0 A i V) (for_rows rest f))"

section \<open>\<open>postprocess/statistics.py\<close>\<close>

text \<open>
  \<^verbatim>\<open>
  def bin(X, binsize = 1):
      if binsize == 1:
          return X;
      else:
          extra = 0 if pl.size(X, axis = 0) % binsize == 0 else 1
          dims = [i for i in pl.shape(Ws)]
          dims[0] = dims[0] / binsize + extra
          dims = tuple(dims)
          X_binned = pl.zeros(dims)
          for i in xrange(pl.size(X_binned, axis = 0)):
              X_binned[i] = pl.mean(X[i * binsize:(i + 1) * binsize], axis = 0)
          return X_binned
  \<close>
  The name \<open>Ws\<close> is neither a parameter nor a local of \<open>bin\<close>, so Python looks it up
  among the globals of the module.  \<open>bin_body\<close> is the body of the function with the
  outcome of that lookup as a parameter; \<open>statistics_globals\<close> lists the names the
  module binds (its import and its two functions).  \<open>%\<close> and \<open>/\<close> are Python 2's
  flooring operations on integers, which is what \<open>mod\<close> and \<open>div\<close> on \<open>int\<close> are.
\<close>

definition statistics_globals :: "string list" where
  "statistics_globals = [''pl'', ''bin'', ''bootstrap'']"

definition lookup_global :: "string list \<Rightarrow> string \<Rightarrow> 'a \<Rightarrow> error + 'a" where
  "lookup_global names x v = (if List.member names x then Inr v else Inl NameError)"

definition bin_body :: "(error + real ndarray) \<Rightarrow> real ndarray \<Rightarrow> int \<Rightarrow> error + real ndarray" where
  "bin_body Ws X binsize =
     (if binsize = 1 then Inr X
      else
        bind (size0 X) (\<lambda>n.
        bind (if binsize = 0 then Inl ZeroDivisionError
              else Inr (if int n mod binsize = 0 then 0 else (1::int))) (\<lambda>extra.
        bind Ws (\<lambda>W.
        bind (case map int (shape W) of
                [] \<Rightarrow> Inl IndexError
              | d # ds \<Rightarrow> Inr ((d div binsize + extra) # ds)) (\<lambda>dims.
        bind (zeros dims) (\<lambda>X_binned.
        bind (size0 X_binned) (\<lambda>m.
        for_rows [0..<m]
          (\<lambda>i. Inr (mean0 (slice0 X (int i * binsize) ((int i + 1) * binsize))))
          X_binned)))))))"

definition bin_py :: "real ndarray \<Rightarrow> int \<Rightarrow> error + real ndarray" where
  "bin_py X binsize = bin_body (lookup_global statistics_globals ''Ws'' X) X binsize"

section \<open>\<open>pyQCD/postprocessing/measurements.py\<close>: the autocorrelation\<close>

text \<open>Row-major flattening: the index tuple of the \<open>k\<close>-th element and back.\<close>

fun unravel :: "nat list \<Rightarrow> nat \<Rightarrow> nat list" where
  "unravel [] k = []"
| "unravel (d # ds) k = (k div prod_list ds) # unravel ds (k mod prod_list ds)"

fun ravel_index :: "nat list \<Rightarrow> nat list \<Rightarrow> nat" where
  "ravel_index (d # ds) (i # idx) = i * prod_list ds + ravel_index ds idx"
| "ravel_index _ _ = 0"

definition ravel :: "'a ndarray \<Rightarrow> 'a list" where
  "ravel A = map (\<lambda>k. item A (unravel (shape A) k)) [0..<prod_list (shape A)]"

text \<open>\<open>pl.mean(A)\<close> is the mean of all elements (nan, with a warning and no exception,
  for an empty array: the model's value there is never used).  \<open>pl.roll(A, s)\<close>
  without an axis flattens \<open>A\<close>, moves every element \<open>s\<close> places to the right
  cyclically and restores the shape.  \<open>A - c\<close> and \<open>A * B\<close> are elementwise.\<close>

definition mean_all :: "real ndarray \<Rightarrow> real" where
  "mean_all A = sum_list (ravel A) / real (length (ravel A))"

definition roll :: "'a ndarray \<Rightarrow> int \<Rightarrow> 'a ndarray" where
  "roll A s =
     \<lparr>shape = shape A,
      item = (\<lambda>idx. ravel A !
                nat ((int (ravel_index (shape A) idx) - s) mod int (length (ravel A))))\<rparr>"

definition amap :: "('a \<Rightarrow> 'b) \<Rightarrow> 'a ndarray \<Rightarrow> 'b ndarray" where
  "amap f A = \<lparr>shape = shape A, item = (\<lambda>idx. f (item A idx))\<rparr>"

definition amap2 :: "('a \<Rightarrow> 'b \<Rightarrow> 'c) \<Rightarrow> 'a ndarray \<Rightarrow> 'b ndarray \<Rightarrow> 'c ndarray" where
  "amap2 f A B = \<lparr>shape = shape A, item = (\<lambda>idx. f (item A idx) (item B idx))\<rparr>"

definition scalar :: "'a \<Rightarrow> 'a ndarray" where
  "scalar c = \<lparr>shape = [], item = (\<lambda>_. c)\<rparr>"

text \<open>
  \<^verbatim>\<open>
  def auto_correlation(plaquettes):
      mean_plaquette = pl.mean(plaquettes)
      num_configs = pl.size(plaquettes, axis = 0) / 2
      auto_corr = pl.zeros(num_configs)
      for t in xrange(num_configs):
          auto_corr[t] = pl.mean((plaquettes - mean_plaquette) \
                                 * (pl.roll(plaquettes, -t) - mean_plaquette))
      return auto_corr
  \<close>
\<close>

definition auto_correlation :: "real ndarray \<Rightarrow> error + real ndarray" where
  "auto_correlation plaquettes =
     (let mean_plaquette = mean_all plaquettes in
      bind (size0 plaquettes) (\<lambda>n.
        let num_configs = n div 2 in
        bind (zeros [int num_configs]) (\<lambda>auto_corr.
        for_rows [0..<num_configs]
          (\<lambda>t. Inr (scalar (mean_all
             (amap2 (*) (amap (\<lambda>p. p - mean_plaquette) plaquettes)
                        (amap (\<lambda>p. p - mean_plaquette) (roll plaquettes (- int t)))))))
          auto_corr)))"

section \<open>\<open>pyQCD/postprocessing/measurements.py\<close>: the fitters and the lattice spacing\<close>

text \<open>
  \<open>scipy.optimize.leastsq\<close> is not part of the repository.  \<open>optimize_leastsq\<close> is
  its call with the residual function (its extra arguments \<open>args\<close> already supplied,
  its result read as the list of residuals) and the initial guess.  As scipy does, it
  evaluates the residuals at the guess first, and raises \<open>TypeError\<close> (Improper
  input: N must not exceed M) when they are fewer than the parameters.  The
  iteration that follows is the parameter \<open>minpack\<close> of the functions below: it
  returns the fitted parameters and the integer status, or it raises.  The residual
  functions index the parameter vector with \<open>b[0]\<close>, \<open>b[1]\<close>, \<open>b[2]\<close>; the solver
  calls them with vectors as long as the initial guess.  No function of the module
  catches an exception.

  What a function prints is returned, in order, beside its result.
\<close>

type_synonym solver =
  "(real list \<Rightarrow> real list) \<Rightarrow> real list \<Rightarrow> error + (real list \<times> int)"

definition optimize_leastsq ::
  "solver \<Rightarrow> (real list \<Rightarrow> real list) \<Rightarrow> real list \<Rightarrow> error + (real list \<times> int)" where
  "optimize_leastsq minpack func x0 =
     (if length (func x0) < length x0 then Inl TypeError else minpack func x0)"

text \<open>\<open>pl.arange(a, b)\<close>, \<open>xs[i]\<close> on a Python list or tuple, \<open>A[i]\<close> and \<open>A[:, j]\<close> on an
  array (non-negative indices).\<close>

definition arange :: "nat \<Rightarrow> nat \<Rightarrow> real ndarray" where
  "arange a b = \<lparr>shape = [b - a], item = (\<lambda>idx. real (a + hd idx))\<rparr>"

definition getitem :: "'a list \<Rightarrow> nat \<Rightarrow> error + 'a" where
  "getitem xs i = (if i < length xs then Inr (xs ! i) else Inl IndexError)"

definition getrow :: "'a ndarray \<Rightarrow> nat \<Rightarrow> error + 'a ndarray" where
  "getrow A i =
     (case shape A of
        [] \<Rightarrow> Inl IndexError
      | n # _ \<Rightarrow> if i < n then Inr (sub A i) else Inl IndexError)"

definition column :: "'a ndarray \<Rightarrow> nat \<Rightarrow> error + 'a ndarray" where
  "column A j =
     (case shape A of
        n # m # rest \<Rightarrow>
          if j < m then Inr \<lparr>shape = n # rest, item = (\<lambda>idx. item A (hd idx # j # tl idx))\<rparr>
          else Inl IndexError
      | _ \<Rightarrow> Inl IndexError)"

text \<open>The loop \<open>for i in is: A[i] = f(i)\<close> where \<open>f\<close> may print.\<close>

fun for_rows_out ::
  "nat list \<Rightarrow> (nat \<Rightarrow> string list \<times> (error + 'a ndarray)) \<Rightarrow> 'a ndarray
     \<Rightarrow> string list \<times> (error + 'a ndarray)" where
  "for_rows_out [] f A = ([], Inr A)"
| "for_rows_out (i # rest) f A =
     (case f i of
        (out, Inl e) \<Rightarrow> (out, Inl e)
      | (out, Inr V) \<Rightarrow>
          (case setitem0 A i V of
             Inl e \<Rightarrow> (out, Inl e)
           | Inr A' \<Rightarrow> (case for_rows_out rest f A' of (out', r) \<Rightarrow> (out @ out', r))))"

text \<open>
  \<^verbatim>\<open>
  def pair_potential(b, r):
      return b[0] * r + b[1] / r + b[2]

  def potential_params(data):
      if len(pl.shape(data)) == 1:
          r = pl.arange(1, pl.size(data) + 1)
          b0 = pl.array([1.0, 1.0, 1.0])
          err_func = lambda b, r, y: y - pair_potential(b, r)
          b, result = optimize.leastsq(err_func, b0, args = (r, data))
          if [1, 2, 3, 4].count(result) < 1:
              print("Warning! Fit failed.")
          return b
      else:
          b_store = pl.zeros((pl.size(data, axis = 0), 3))
          for i in xrange(pl.size(data, axis = 0)):
              b_store[i] = potential_params(data[i])
          return b_store
  \<close>
\<close>

definition pair_potential :: "real list \<Rightarrow> real ndarray \<Rightarrow> real ndarray" where
  "pair_potential b r = amap (\<lambda>x. b ! 0 * x + b ! 1 / x + b ! 2) r"

definition err_func :: "real list \<Rightarrow> real ndarray \<Rightarrow> real ndarray \<Rightarrow> real ndarray" where
  "err_func b r y = amap2 (-) y (pair_potential b r)"

function potential_params :: "solver \<Rightarrow> real ndarray \<Rightarrow> string list \<times> (error + real ndarray)" where
  "potential_params minpack data =
     (if length (shape data) = 1 then
        (let r = arange 1 (prod_list (shape data) + 1);
             b0 = [1, 1, 1]
         in case optimize_leastsq minpack (\<lambda>b. tolist1 (err_func b r data)) b0 of
              Inl e \<Rightarrow> ([], Inl e)
            | Inr (b, result) \<Rightarrow>
                (if count_list [1, 2, 3, 4] result < 1 then [''Warning! Fit failed.''] else [],
                 Inr (array1 b)))
      else
        (case size0 data of
           Inl e \<Rightarrow> ([], Inl e)
         | Inr n \<Rightarrow>
             (case zeros [int n, 3] of
                Inl e \<Rightarrow> ([], Inl e)
              | Inr b_store \<Rightarrow>
                  for_rows_out [0..<n] (\<lambda>i. potential_params minpack (sub data i)) b_store)))"
  by pat_completeness auto
termination
  by (relation "measure (\<lambda>(minpack, data). length (shape data))")
     (auto simp: size0_def sub_def split: list.splits)

text \<open>
  \<^verbatim>\<open>
  def calculate_potential(wilson_loops):
      if len(pl.shape(wilson_loops)) == 2:
          potentials = pl.zeros(pl.size(wilson_loops, axis = 0))
          r = pl.arange(1, pl.size(wilson_loops, axis = 0) + 1)
          t = pl.arange(1, pl.size(wilson_loops, axis = 1) + 1)
          f = lambda b, t, W: W - b[0] * pl.exp(-b[1] * t)
          for i in xrange(pl.size(wilson_loops, axis = 0)):
              params, result = optimize.leastsq(f, [1., 1.],
                                                args = (t, wilson_loops[i]))
              potentials[i] = params[1]
      else:
          potentials = pl.zeros(pl.shape(wilson_loops)[:-1])
          for i in xrange(pl.size(wilson_loops, axis = 0)):
              potentials[i] = calculate_potential(wilson_loops[i])
      return potentials
  \<close>
\<close>

text \<open>\<open>f_lambda\<close> is the source's \<open>f = lambda b, t, W: ...\<close>.\<close>

definition f_lambda :: "real list \<Rightarrow> real ndarray \<Rightarrow> real ndarray \<Rightarrow> real ndarray" where
  "f_lambda b t W = amap2 (-) W (amap (\<lambda>x. b ! 0 * exp (- (b ! 1) * x)) t)"

function calculate_potential :: "solver \<Rightarrow> real ndarray \<Rightarrow> error + real ndarray" where
  "calculate_potential minpack wilson_loops =
     (if length (shape wilson_loops) = 2 then
        bind (zeros [int (shape wilson_loops ! 0)]) (\<lambda>potentials.
          let r = arange 1 (shape wilson_loops ! 0 + 1);
              t = arange 1 (shape wilson_loops ! 1 + 1)
          in for_rows [0..<shape wilson_loops ! 0]
               (\<lambda>i. bind (optimize_leastsq minpack
                            (\<lambda>b. tolist1 (f_lambda b t (sub wilson_loops i))) [1, 1])
                      (\<lambda>(params, result). bind (getitem params 1) (\<lambda>p. Inr (scalar p))))
               potentials)
      else
        (case zeros (map int (butlast (shape wilson_loops))) of
           Inl e \<Rightarrow> Inl e
         | Inr potentials \<Rightarrow>
             (case size0 wilson_loops of
                Inl e \<Rightarrow> Inl e
              | Inr n \<Rightarrow>
                  for_rows [0..<n] (\<lambda>i. calculate_potential minpack (sub wilson_loops i))
                    potentials)))"
  by pat_completeness auto
termination
  by (relation "measure (\<lambda>(minpack, wilson_loops). length (shape wilson_loops))")
     (auto simp: size0_def sub_def split: list.splits)

text \<open>
  \<^verbatim>\<open>
  def calculate_spacing(wilson_loops):
      potentials = calculate_potential(wilson_loops)
      fit_params = potential_params(potentials)
      if len(pl.shape(fit_params)) > 1:
          return 0.5 / pl.sqrt((1.65 + fit_params[:,1]) / fit_params[:,0])
      else:
          return 0.5 / pl.sqrt((1.65 + fit_params[1]) / fit_params[0])
  \<close>
  Division by zero and the square root of a negative number give inf or nan in float64,
  with a warning and no exception; the model has the values of \<open>/\<close> and \<open>sqrt\<close> on
  \<open>real\<close> there.
\<close>

definition sommer :: "real ndarray \<Rightarrow> real ndarray \<Rightarrow> real ndarray" where
  "sommer p1 p0 =
     amap (\<lambda>x. 0.5 / x) (amap sqrt (amap2 (/) (amap (\<lambda>x. 1.65 + x) p1) p0))"

definition calculate_spacing :: "solver \<Rightarrow> real ndarray \<Rightarrow> string list \<times> (error + real ndarray)" where
  "calculate_spacing minpack wilson_loops =
     (case calculate_potential minpack wilson_loops of
        Inl e \<Rightarrow> ([], Inl e)
      | Inr potentials \<Rightarrow>
          (case potential_params minpack potentials of
             (out, Inl e) \<Rightarrow> (out, Inl e)
           | (out, Inr fit_params) \<Rightarrow>
               (out,
                if length (shape fit_params) > 1 then
                  bind (column fit_params 1) (\<lambda>p1.
                  bind (column fit_params 0) (\<lambda>p0. Inr (sommer p1 p0)))
                else
                  bind (getrow fit_params 1) (\<lambda>p1.
                  bind (getrow fit_params 0) (\<lambda>p0. Inr (sommer p1 p0))))))"

section \<open>Reference formulas for the autocorrelation and the fits\<close>

text \<open>
  The specification's reading of the estimator, on the list of values of a series:
  with \<open>\<mu>\<close> the sample mean, the value at lag \<open>t\<close> is the mean over all \<open>i\<close> of
  \<open>(S[i] - \<mu>) * (S[(i - t) mod N] - \<mu>)\<close>; the population variance is the mean of the
  squared deviations.
\<close>

definition series_mean :: "real list \<Rightarrow> real" where
  "series_mean S = sum_list S / real (length S)"

definition lagged_mean :: "real list \<Rightarrow> nat \<Rightarrow> real" where
  "lagged_mean S t =
     (\<Sum>i\<leftarrow>[0..<length S]. (S ! i - series_mean S) *
         (S ! nat ((int i - int t) mod int (length S)) - series_mean S)) / real (length S)"

definition population_variance :: "real list \<Rightarrow> real" where
  "population_variance S =
     (\<Sum>i\<leftarrow>[0..<length S]. (S ! i - series_mean S)\<^sup>2) / real (length S)"

text \<open>Index tuples inside a shape, and the two cyclic shifts of an index.\<close>

definition in_range :: "nat list \<Rightarrow> nat list \<Rightarrow> bool" where
  "in_range ts idx = list_all2 (<) idx ts"

definition fwd :: "nat \<Rightarrow> nat \<Rightarrow> nat \<Rightarrow> nat" where
  "fwd n t i = nat ((int i + int t) mod int n)"

definition bwd :: "nat \<Rightarrow> nat \<Rightarrow> nat \<Rightarrow> nat" where
  "bwd n t i = nat ((int i - int t) mod int n)"

text \<open>
  The specification's reading of the fitters, on lists of values.  The decay fit of
  one time profile \<open>w\<close> hands the solver the residuals of \<open>b0 * exp(-b1 * t)\<close> at the times
  \<open>t = 1, 2, ..., len(w)\<close>, from the guess \<open>(1, 1)\<close>, and keeps the second parameter; the
  potential fit of a curve \<open>v\<close> hands it the residuals of \<open>b0 * r + b1 / r + b2\<close> at the
  separations \<open>r = 1, 2, ..., len(v)\<close>, from the guess \<open>(1, 1, 1)\<close>; the Sommer relation is
  \<open>a = 0.5 / sqrt((1.65 + b1) / b0)\<close>, a number when the quotient under the root is
  positive; the lattice spacing of one set of Wilson loops composes the three.
  \<open>solution\<close> reads the parameters off what the solver returned.  \<open>returns_params\<close>
  says that the solver, given at least as many residuals as parameters, returns, with
  as many parameters as the guess has.  \<open>fit_warning\<close> is what \<open>potential_params\<close>
  prints for a status.
\<close>

definition solution :: "error + (real list \<times> int) \<Rightarrow> real list" where
  "solution r = (case r of Inr (b, status) \<Rightarrow> b | Inl e \<Rightarrow> [])"

definition fit_decay_rate :: "solver \<Rightarrow> real list \<Rightarrow> real" where
  "fit_decay_rate minpack w =
     solution (minpack (\<lambda>b. map (\<lambda>k. w ! k - b ! 0 * exp (- (b ! 1) * real (k + 1)))
                               [0..<length w])
                 [1, 1]) ! 1"

definition fit_potential_curve :: "solver \<Rightarrow> real list \<Rightarrow> error + (real list \<times> int)" where
  "fit_potential_curve minpack v =
     minpack (\<lambda>b. map (\<lambda>k. v ! k - (b ! 0 * real (k + 1) + b ! 1 / real (k + 1) + b ! 2))
                    [0..<length v])
       [1, 1, 1]"

definition potential_fit :: "solver \<Rightarrow> real list list \<Rightarrow> real list" where
  "potential_fit minpack wl =
     solution (fit_potential_curve minpack (map (fit_decay_rate minpack) wl))"

definition sommer_defined :: "real list \<Rightarrow> bool" where
  "sommer_defined b = (0 < (1.65 + b ! 1) / b ! 0)"

definition sommer_scale :: "real list \<Rightarrow> real" where
  "sommer_scale b = 0.5 / sqrt ((1.65 + b ! 1) / b ! 0)"

definition tolist2 :: "'a ndarray \<Rightarrow> 'a list list" where
  "tolist2 A = map (\<lambda>i. tolist1 (sub A i)) [0..<hd (shape A)]"

definition lattice_spacing :: "solver \<Rightarrow> real list list \<Rightarrow> real" where
  "lattice_spacing minpack wl = sommer_scale (potential_fit minpack wl)"

definition returns_params :: "solver \<Rightarrow> bool" where
  "returns_params minpack =
     (\<forall>g x0. length x0 \<le> length (g x0) \<longrightarrow>
        (\<exists>b status. minpack g x0 = Inr (b, status) \<and> length b = length x0))"

definition fit_warning :: "int \<Rightarrow> string list" where
  "fit_warning status = (if count_list [1, 2, 3, 4] status < 1 then [''Warning! Fit failed.''] else [])"

text \<open>
  A solver for the examples: one step from the guess, which moves every parameter
  by the residual of the same index, and the status it is given.
\<close>

definition one_step :: "int \<Rightarrow> solver" where
  "one_step status g x0 = Inr (map (\<lambda>j. x0 ! j + g x0 ! j) [0..<length x0], status)"

text \<open>\<open>pl.array\<close> of a rectangular list of lists (of lists of lists).\<close>

definition array3 :: "'a list list list \<Rightarrow> 'a ndarray" where
  "array3 xsss =
     \<lparr>shape = [length xsss, length (hd xsss), length (hd (hd xsss))],
      item = (\<lambda>idx. xsss ! (idx ! 0) ! (idx ! 1) ! (idx ! 2))\<rparr>"

definition array2 :: "'a list list \<Rightarrow> 'a ndarray" where
  "array2 xss = \<lparr>shape = [length xss, length (hd xss)], item = (\<lambda>idx. xss ! (idx ! 0) ! (idx ! 1))\<rparr>"

section \<open>\<open>pyQCD/postprocessing/measurements.py\<close>: the correlator\<close>

text \<open>
  \<^verbatim>\<open>
  def compute_correlator(prop1, prop2, Gamma):
      """
      correlator = pl.einsum('ij,xjlab,lm,ximab->x',
                             Gamma2, pl.conj(prop1),
                             Gamma3, prop2).real
                             """
      Gamma2 = pl.dot(Gamma, const.gamma5)
      Gamma3 = pl.dot(const.gamma5, Gamma)
      product1 \
        = pl.swapaxes(pl.tensordot(Gamma2, pl.conj(prop1), (1,1)),
                      0, 1)
      product2 \
        = pl.swapaxes(pl.tensordot(Gamma3, prop2, (1,2)),
                      0,1)
      product2 = pl.swapaxes(product2,1,2)
      correlator = pl.einsum('xijab,xijab->x',product1,product2)
      return correlator.real
  \<close>
  \<open>pyQCD.interfaces.constants\<close> is not among the sources: \<open>const.gamma5\<close> is the
  parameter \<open>gamma5\<close>.

  \<open>pl.tensordot(A, B, (p, q))\<close> sums the products over axis \<open>p\<close> of \<open>A\<close> and axis \<open>q\<close> of
  \<open>B\<close>, which must have the same length; the axes of the result are the remaining axes
  of \<open>A\<close>, then those of \<open>B\<close>.  \<open>pl.dot(A, B)\<close> is the product by a scalar if either is
  zero-dimensional, and otherwise sums over the last axis of \<open>A\<close> and the last but one of
  \<open>B\<close> (the only one, if \<open>B\<close> is one-dimensional).  \<open>pl.swapaxes\<close> exchanges two axes.
  \<open>pl.einsum('xijab,xijab->x', A, B)\<close> takes two five-dimensional arrays whose axes have
  pairwise the same length (or length one, which is broadcast) and sums the products
  over the last four axes.
\<close>

definition drop_axis :: "nat \<Rightarrow> 'a list \<Rightarrow> 'a list" where
  "drop_axis p xs = take p xs @ drop (Suc p) xs"

definition insert_axis :: "nat \<Rightarrow> 'a \<Rightarrow> 'a list \<Rightarrow> 'a list" where
  "insert_axis p k xs = take p xs @ k # drop p xs"

definition tensordot ::
  "complex ndarray \<Rightarrow> complex ndarray \<Rightarrow> nat \<times> nat \<Rightarrow> error + complex ndarray" where
  "tensordot A B axes =
     (case axes of (p, q) \<Rightarrow>
        if \<not> p < length (shape A) then Inl IndexError
        else if \<not> q < length (shape B) then Inl IndexError
        else if shape A ! p \<noteq> shape B ! q then Inl ValueError
        else Inr \<lparr>shape = drop_axis p (shape A) @ drop_axis q (shape B),
                  item = (\<lambda>idx. \<Sum>k\<leftarrow>[0..<shape A ! p].
                            item A (insert_axis p k (take (length (shape A) - 1) idx)) *
                            item B (insert_axis q k (drop (length (shape A) - 1) idx)))\<rparr>)"

definition dot :: "complex ndarray \<Rightarrow> complex ndarray \<Rightarrow> error + complex ndarray" where
  "dot A B =
     (if shape A = [] then Inr (amap (\<lambda>y. item A [] * y) B)
      else if shape B = [] then Inr (amap (\<lambda>x. x * item B []) A)
      else if length (shape B) = 1 then tensordot A B (length (shape A) - 1, 0)
      else tensordot A B (length (shape A) - 1, length (shape B) - 2))"

definition swap :: "nat \<Rightarrow> nat \<Rightarrow> 'a list \<Rightarrow> 'a list" where
  "swap p q xs = (xs[p := xs ! q])[q := xs ! p]"

definition swapaxes :: "'a ndarray \<Rightarrow> nat \<Rightarrow> nat \<Rightarrow> error + 'a ndarray" where
  "swapaxes A p q =
     (if \<not> p < length (shape A) then Inl AxisError
      else if \<not> q < length (shape A) then Inl AxisError
      else Inr \<lparr>shape = swap p q (shape A), item = (\<lambda>idx. item A (swap p q idx))\<rparr>)"

definition einsum_dims :: "nat list \<Rightarrow> nat list \<Rightarrow> nat list" where
  "einsum_dims ds es = map2 (\<lambda>d e. if d = 1 then e else d) ds es"

definition einsum_index :: "nat list \<Rightarrow> nat list \<Rightarrow> nat list" where
  "einsum_index ds idx = map2 (\<lambda>d i. if d = 1 then 0 else i) ds idx"

definition einsum_xijab :: "complex ndarray \<Rightarrow> complex ndarray \<Rightarrow> error + complex ndarray" where
  "einsum_xijab A B =
     (if length (shape A) \<noteq> 5 then Inl ValueError
      else if length (shape B) \<noteq> 5 then Inl ValueError
      else if \<not> list_all2 (\<lambda>d e. d = e \<or> d = 1 \<or> e = 1) (shape A) (shape B) then Inl ValueError
      else
        (let ds = einsum_dims (shape A) (shape B)
         in Inr \<lparr>shape = [ds ! 0],
                  item = (\<lambda>idx.
                    \<Sum>i\<leftarrow>[0..<ds ! 1]. \<Sum>j\<leftarrow>[0..<ds ! 2]. \<Sum>a\<leftarrow>[0..<ds ! 3]. \<Sum>b\<leftarrow>[0..<ds ! 4].
                      item A (einsum_index (shape A) [hd idx, i, j, a, b]) *
                      item B (einsum_index (shape B) [hd idx, i, j, a, b]))\<rparr>))"

definition compute_correlator ::
  "complex ndarray \<Rightarrow> complex ndarray \<Rightarrow> complex ndarray \<Rightarrow> complex ndarray
     \<Rightarrow> error + real ndarray" where
  "compute_correlator gamma5 prop1 prop2 Gamma =
     bind (dot Gamma gamma5) (\<lambda>Gamma2.
     bind (dot gamma5 Gamma) (\<lambda>Gamma3.
     bind (bind (tensordot Gamma2 (amap cnj prop1) (1, 1)) (\<lambda>td. swapaxes td 0 1)) (\<lambda>product1.
     bind (bind (tensordot Gamma3 prop2 (1, 2)) (\<lambda>td. swapaxes td 0 1)) (\<lambda>product2.
     bind (swapaxes product2 1 2) (\<lambda>product2.
     bind (einsum_xijab product1 product2) (\<lambda>correlator.
     Inr (amap Re correlator)))))))"

text \<open>
  The specification's reading: the single contraction
  \<open>Re[\<Sum> (Gamma gamma5) conj(prop1(x)) (gamma5 Gamma) prop2(x)]\<close> over spin and colour at
  the site \<open>x\<close>, with the indices placed as in the source's \<open>'ij,xjlab,lm,ximab->x'\<close>, and
  the products \<open>Gamma gamma5\<close> and \<open>gamma5 Gamma\<close> as matrix products.
\<close>

definition matmul :: "complex ndarray \<Rightarrow> complex ndarray \<Rightarrow> nat \<Rightarrow> nat \<Rightarrow> nat \<Rightarrow> complex" where
  "matmul A B n i j = (\<Sum>k<n. item A [i, k] * item B [k, j])"

definition contraction ::
  "nat \<Rightarrow> nat \<Rightarrow> nat \<Rightarrow> complex ndarray \<Rightarrow> complex ndarray \<Rightarrow> complex ndarray \<Rightarrow> complex ndarray
     \<Rightarrow> nat \<Rightarrow> real" where
  "contraction S C C' gamma5 Gamma prop1 prop2 x =
     Re (\<Sum>i<S. \<Sum>j<S. \<Sum>l<S. \<Sum>m<S. \<Sum>a<C. \<Sum>b<C'.
           matmul Gamma gamma5 S i j * cnj (item prop1 [x, j, l, a, b]) *
           matmul gamma5 Gamma S l m * item prop2 [x, i, m, a, b])"

text \<open>\<open>staged\<close> is the sum that the stages of \<open>compute_correlator\<close> compute at a site;
  \<open>const_array\<close>, \<open>gamma5_chiral\<close> and \<open>identity4\<close> are example inputs.\<close>

definition const_array :: "nat list \<Rightarrow> 'a \<Rightarrow> 'a ndarray" where
  "const_array sh c = \<lparr>shape = sh, item = (\<lambda>_. c)\<rparr>"

definition staged ::
  "nat \<Rightarrow> nat \<Rightarrow> nat \<Rightarrow> complex ndarray \<Rightarrow> complex ndarray \<Rightarrow> complex ndarray \<Rightarrow> complex ndarray
     \<Rightarrow> nat \<Rightarrow> complex" where
  "staged S C C' gamma5 Gamma prop1 prop2 x =
     (\<Sum>i\<leftarrow>[0..<S]. \<Sum>j\<leftarrow>[0..<S]. \<Sum>a\<leftarrow>[0..<C]. \<Sum>b\<leftarrow>[0..<C'].
        (\<Sum>k\<leftarrow>[0..<S]. (\<Sum>n\<leftarrow>[0..<S]. item Gamma [i, n] * item gamma5 [n, k]) *
                          cnj (item prop1 [x, k, j, a, b])) *
        (\<Sum>k\<leftarrow>[0..<S]. (\<Sum>n\<leftarrow>[0..<S]. item gamma5 [j, n] * item Gamma [n, k]) *
                          item prop2 [x, i, k, a, b]))"

definition gamma5_chiral :: "complex ndarray" where
  "gamma5_chiral = array2 [[1, 0, 0, 0], [0, 1, 0, 0], [0, 0, - 1, 0], [0, 0, 0, - 1]]"

definition identity4 :: "complex ndarray" where
  "identity4 = array2 [[1, 0, 0, 0], [0, 1, 0, 0], [0, 0, 1, 0], [0, 0, 0, 1]]"

section \<open>\<open>pyQCD/postprocessing/measurements.py\<close>: the meson spectrum\<close>

text \<open>
  \<^verbatim>\<open>
  def meson_spec(prop_file1, prop_file2, lattice_shape, momentum):
      num_props = len(prop_file1.keys())
      correlators = pl.zeros((num_props, lattice_shape[0], 17))
      Gammas = [G for Gs in const.Gammas.itervalues() for G in Gs]
      sites = list(itertools.product(xrange(lattice_shape[1]),
                                     xrange(lattice_shape[2]),
                                     xrange(lattice_shape[3])))
      momentum_prefactors = [2 * pl.pi / N for N in lattice_shape[1:]]
      for i, key in enumerate(prop_file1.keys()):
          print("Calculating correlators for propagator pair %d... " % i),
          sys.stdout.flush()
          prop1 = io.load_propagator(prop_file1, key)
          prop2 = io.load_propagator(prop_file2, key)
          correlators[i, :, 0] = pl.arange(lattice_shape[0])
          for j,Gamma in enumerate(Gammas):
              pos_correl \
                = pl.reshape(compute_correlator(prop1, prop2, Gamma),
                             (lattice_shape[0], len(sites)))
              exponentials \
                = pl.exp(1j * pl.einsum('ij,j,j',
                                        sites,
                                        momentum,
                                        momentum_prefactors))
              correlators[i, :, j + 1] \
                = pl.einsum('ij,j', pos_correl, exponentials).real
          print("Done!")
          sys.stdout.flush()
      return correlators
  \<close>
  The propagator files, \<open>pyQCD.interfaces.io\<close> and \<open>pyQCD.interfaces.constants\<close> are not
  among the sources; they are the record \<open>externals\<close>: the keys of a file, the loader
  (which may raise), \<open>const.gamma5\<close>, and the dictionary \<open>const.Gammas\<close> as the list of its
  items in the order in which \<open>itervalues()\<close> yields them.

  What is printed is returned beside the result (\<open>obind\<close>, \<open>lift\<close>, \<open>print\<close>);
  \<open>for_each\<close> and \<open>for_each_out\<close> are the \<open>for\<close> loops over a list, threading the array that
  the body updates; \<open>show_nat\<close> is the \<open>%d\<close> of a natural number.  \<open>pl.reshape\<close> keeps the
  row-major order of the elements; \<open>correlators[i, :, c] = V\<close> is \<open>setitem_col\<close>.
  \<open>pl.einsum('ij,j,j', sites, momentum, momentum_prefactors)\<close> needs a two-dimensional
  first operand (the array of an empty list of sites is one-dimensional) and operands of
  length 3 or 1 along \<open>j\<close>; \<open>pl.einsum('ij,j', A, B)\<close> sums the products along the second
  axis of \<open>A\<close>.  The division \<open>2 * pl.pi / N\<close> of a float by the integer 0 raises.
  \<open>gamma_column\<close> is the value that the inner loop's body assigns to
  \<open>correlators[i, :, j + 1]\<close>.
\<close>

definition obind ::
  "string list \<times> (error + 'a) \<Rightarrow> ('a \<Rightarrow> string list \<times> (error + 'b)) \<Rightarrow> string list \<times> (error + 'b)" where
  "obind m g =
     (case m of
        (out, Inl e) \<Rightarrow> (out, Inl e)
      | (out, Inr v) \<Rightarrow> (case g v of (out', r) \<Rightarrow> (out @ out', r)))"

definition lift :: "error + 'a \<Rightarrow> string list \<times> (error + 'a)" where
  "lift m = ([], m)"

definition print :: "string \<Rightarrow> string list \<times> (error + unit)" where
  "print s = ([s], Inr ())"

fun for_each :: "('x \<Rightarrow> 's \<Rightarrow> error + 's) \<Rightarrow> 'x list \<Rightarrow> 's \<Rightarrow> error + 's" where
  "for_each body [] s = Inr s"
| "for_each body (x # xs) s = bind (body x s) (for_each body xs)"

fun for_each_out ::
  "('x \<Rightarrow> 's \<Rightarrow> string list \<times> (error + 's)) \<Rightarrow> 'x list \<Rightarrow> 's \<Rightarrow> string list \<times> (error + 's)" where
  "for_each_out body [] s = ([], Inr s)"
| "for_each_out body (x # xs) s = obind (body x s) (for_each_out body xs)"

fun show_nat :: "nat \<Rightarrow> string" where
  "show_nat n =
     (if n < 10 then [char_of (48 + n)] else show_nat (n div 10) @ [char_of (48 + n mod 10)])"

definition reshape :: "'a ndarray \<Rightarrow> nat list \<Rightarrow> error + 'a ndarray" where
  "reshape A dims =
     (if prod_list (shape A) \<noteq> prod_list dims then Inl ValueError
      else Inr \<lparr>shape = dims, item = (\<lambda>idx. item A (unravel (shape A) (ravel_index dims idx)))\<rparr>)"

definition setitem_col :: "'a ndarray \<Rightarrow> nat \<Rightarrow> nat \<Rightarrow> 'a ndarray \<Rightarrow> error + 'a ndarray" where
  "setitem_col A i c V =
     (case shape A of
        [n, t, w] \<Rightarrow>
          if \<not> i < n then Inl IndexError
          else if \<not> c < w then Inl IndexError
          else if \<not> broadcastable (shape V) [t] then Inl ValueError
          else Inr (A\<lparr>item :=
                 (\<lambda>idx. if length idx = 3 \<and> idx ! 0 = i \<and> idx ! 2 = c
                        then item V (bc_index (shape V) [idx ! 1]) else item A idx)\<rparr>)
      | _ \<Rightarrow> Inl IndexError)"

definition bc_nth :: "'a list \<Rightarrow> nat \<Rightarrow> 'a" where
  "bc_nth xs j = xs ! (if length xs = 1 then 0 else j)"

definition einsum_ij_j_j :: "nat list list \<Rightarrow> real list \<Rightarrow> real list \<Rightarrow> error + real ndarray" where
  "einsum_ij_j_j sites momentum momentum_prefactors =
     (if sites = [] then Inl ValueError
      else if length momentum \<noteq> 3 \<and> length momentum \<noteq> 1 then Inl ValueError
      else if length momentum_prefactors \<noteq> 3 \<and> length momentum_prefactors \<noteq> 1 then Inl ValueError
      else Inr \<lparr>shape = [length sites],
                item = (\<lambda>idx. \<Sum>j\<leftarrow>[0..<3].
                          real (sites ! hd idx ! j) * bc_nth momentum j * bc_nth momentum_prefactors j)\<rparr>)"

definition einsum_ij_j :: "real ndarray \<Rightarrow> complex ndarray \<Rightarrow> error + complex ndarray" where
  "einsum_ij_j A B =
     (if length (shape A) \<noteq> 2 then Inl ValueError
      else if length (shape B) \<noteq> 1 then Inl ValueError
      else if shape A ! 1 \<noteq> shape B ! 0 \<and> shape A ! 1 \<noteq> 1 \<and> shape B ! 0 \<noteq> 1 then Inl ValueError
      else
        (let d = (if shape A ! 1 = 1 then shape B ! 0 else shape A ! 1)
         in Inr \<lparr>shape = [shape A ! 0],
                  item = (\<lambda>idx. \<Sum>j\<leftarrow>[0..<d].
                            complex_of_real (item A (einsum_index (shape A) [hd idx, j])) *
                            item B (einsum_index (shape B) [j]))\<rparr>))"

fun momentum_prefactors_of :: "int list \<Rightarrow> error + real list" where
  "momentum_prefactors_of [] = Inr []"
| "momentum_prefactors_of (N # Ns) =
     (if N = 0 then Inl ZeroDivisionError
      else bind (momentum_prefactors_of Ns) (\<lambda>ps. Inr (2 * pi / real_of_int N # ps)))"

record ('f, 'k) externals =
  file_keys :: "'f \<Rightarrow> 'k list"
  io_load_propagator :: "'f \<Rightarrow> 'k \<Rightarrow> error + complex ndarray"
  const_gamma5 :: "complex ndarray"
  const_Gammas :: "(string \<times> complex ndarray list) list"

definition gamma_column ::
  "complex ndarray \<Rightarrow> complex ndarray \<Rightarrow> complex ndarray \<Rightarrow> int \<Rightarrow> nat list list \<Rightarrow> real list
     \<Rightarrow> real list \<Rightarrow> complex ndarray \<Rightarrow> error + real ndarray" where
  "gamma_column gamma5 prop1 prop2 T sites momentum momentum_prefactors Gamma =
     bind (compute_correlator gamma5 prop1 prop2 Gamma) (\<lambda>correlator.
     bind (reshape correlator [nat T, length sites]) (\<lambda>pos_correl.
     bind (einsum_ij_j_j sites momentum momentum_prefactors) (\<lambda>phases.
     let exponentials = amap (\<lambda>\<theta>. exp (\<i> * complex_of_real \<theta>)) phases
     in bind (einsum_ij_j pos_correl exponentials) (\<lambda>projected.
        Inr (amap Re projected)))))"

definition lattice_sites :: "int \<Rightarrow> int \<Rightarrow> int \<Rightarrow> nat list list" where
  "lattice_sites X Y Z = [[x, y, z]. x \<leftarrow> [0..<nat X], y \<leftarrow> [0..<nat Y], z \<leftarrow> [0..<nat Z]]"

definition meson_spec ::
  "('f, 'k) externals \<Rightarrow> 'f \<Rightarrow> 'f \<Rightarrow> int list \<Rightarrow> real list \<Rightarrow> string list \<times> (error + real ndarray)" where
  "meson_spec ext prop_file1 prop_file2 lattice_shape momentum =
     (let num_props = length (file_keys ext prop_file1) in
      obind (lift (getitem lattice_shape 0)) (\<lambda>T.
      obind (lift (zeros [int num_props, T, 17])) (\<lambda>correlators.
      let Gammas = concat (map snd (const_Gammas ext)) in
      obind (lift (getitem lattice_shape 1)) (\<lambda>X.
      obind (lift (getitem lattice_shape 2)) (\<lambda>Y.
      obind (lift (getitem lattice_shape 3)) (\<lambda>Z.
      let sites = lattice_sites X Y Z in
      obind (lift (momentum_prefactors_of (drop 1 lattice_shape))) (\<lambda>momentum_prefactors.
      for_each_out
        (\<lambda>(i, key) correlators.
           obind (print (''Calculating correlators for propagator pair '' @ show_nat i @ ''... '')) (\<lambda>_.
           obind (lift (io_load_propagator ext prop_file1 key)) (\<lambda>prop1.
           obind (lift (io_load_propagator ext prop_file2 key)) (\<lambda>prop2.
           obind (lift (setitem_col correlators i 0 (arange 0 (nat T)))) (\<lambda>correlators.
           obind (lift (for_each
                    (\<lambda>(j, Gamma) correlators.
                       bind (gamma_column (const_gamma5 ext) prop1 prop2 T sites momentum
                               momentum_prefactors Gamma)
                            (setitem_col correlators i (j + 1)))
                    (enumerate 0 Gammas) correlators)) (\<lambda>correlators.
           obind (print ''Done!'') (\<lambda>_. ([], Inr correlators))))))))
        (enumerate 0 (file_keys ext prop_file1)) correlators)))))))"

text \<open>An example of the externals: a file is the list of its keys with their
  propagators, a missing key is a \<open>KeyError\<close>, and the library has 16 matrices.\<close>

definition dict_externals :: "((string \<times> complex ndarray) list, string) externals" where
  "dict_externals =
     \<lparr>file_keys = map fst,
      io_load_propagator = (\<lambda>file key. case map_of file key of None \<Rightarrow> Inl KeyError | Some P \<Rightarrow> Inr P),
      const_gamma5 = gamma5_chiral,
      const_Gammas = [(''all'', replicate 16 identity4)]\<rparr>"

text \<open>
  The specification's reading of the momentum projection: the correlator of time slice
  \<open>t\<close> is the real part of the sum, over the spatial sites \<open>s\<close>, of
  \<open>correlator(t, s) * exp(i * phase(s))\<close>, where the phase of a site is the sum over the three
  axes of \<open>site * momentum * 2 \<pi> / extent\<close>.
\<close>

definition site_phase :: "nat list list \<Rightarrow> real list \<Rightarrow> int list \<Rightarrow> nat \<Rightarrow> real" where
  "site_phase sites momentum extents s =
     (\<Sum>j<3. real (sites ! s ! j) * momentum ! j * (2 * pi / real_of_int (extents ! j)))"

definition momentum_projection :: "nat \<Rightarrow> (nat \<Rightarrow> real) \<Rightarrow> (nat \<Rightarrow> real) \<Rightarrow> nat \<Rightarrow> real" where
  "momentum_projection V corr phase t =
     Re (\<Sum>s<V. complex_of_real (corr (t * V + s)) * exp (\<i> * complex_of_real (phase s)))"

section \<open>Verified properties\<close>

subsection \<open>Sequencing, row assignment and loops\<close>

lemma bind_Inr [simp]: "bind (Inr v) f = f v"
  by (simp add: bind_def)

lemma bind_Inl [simp]: "bind (Inl e) f = Inl e"
  by (simp add: bind_def)

lemma strip_ones_short: "length ds \<le> r \<Longrightarrow> strip_ones ds r = ds"
  by (cases ds) simp_all

lemma map2_in_range:
  "list_all2 (<) idx ts \<Longrightarrow> map2 (\<lambda>v i. if v = Suc 0 then 0 else i) ts idx = (idx :: nat list)"
  by (induction idx ts rule: list_all2_induct) auto

lemma bc_index_same: "in_range ts idx \<Longrightarrow> bc_index ts idx = idx"
proof -
  assume r: "in_range ts idx"
  then have len: "length idx = length ts"
    by (simp add: in_range_def list_all2_lengthD)
  then have "strip_ones ts (length idx) = ts"
    by (simp add: strip_ones_short)
  with r len show ?thesis
    by (simp add: bc_index_def Let_def in_range_def map2_in_range)
qed

lemma broadcastable_same: "broadcastable ts ts"
  by (simp add: broadcastable_def Let_def strip_ones_short list_all2_same)

lemma setitem0_row:
  assumes "shape A = n # ts" "i < n" "shape V = ts"
  shows "\<exists>R. setitem0 A i V = Inr R \<and> shape R = n # ts \<and>
           (\<forall>j idx. in_range ts idx \<longrightarrow>
              item R (j # idx) = (if j = i then item V idx else item A (j # idx)))"
  using assms by (simp add: setitem0_def broadcastable_same bc_index_same)

lemma for_rows_rows:
  assumes "shape A = n # ts" "\<forall>i \<in> set rows. i < n \<and> f i = Inr (V i) \<and> shape (V i) = ts"
  shows "\<exists>R. for_rows rows f A = Inr R \<and> shape R = n # ts \<and>
           (\<forall>j idx. in_range ts idx \<longrightarrow>
              item R (j # idx) = (if j \<in> set rows then item (V j) idx else item A (j # idx)))"
  using assms
proof (induction rows arbitrary: A)
  case Nil
  then show ?case by simp
next
  case (Cons i rows)
  from Cons.prems have fi: "f i = Inr (V i)" "shape (V i) = ts" "i < n" by simp_all
  from setitem0_row [OF Cons.prems(1) fi(3) fi(2)] obtain B where
    B: "setitem0 A i (V i) = Inr B" "shape B = n # ts"
       "\<forall>j idx. in_range ts idx \<longrightarrow>
              item B (j # idx) = (if j = i then item (V i) idx else item A (j # idx))"
    by blast
  from Cons.prems have rest: "\<forall>i \<in> set rows. i < n \<and> f i = Inr (V i) \<and> shape (V i) = ts"
    by simp
  from Cons.IH [OF B(2) rest] obtain R where
    R: "for_rows rows f B = Inr R" "shape R = n # ts"
       "\<forall>j idx. in_range ts idx \<longrightarrow>
              item R (j # idx) = (if j \<in> set rows then item (V j) idx else item B (j # idx))"
    by blast
  have "for_rows (i # rows) f A = Inr R"
    using fi(1) B(1) R(1) by simp
  moreover have "\<forall>j idx. in_range ts idx \<longrightarrow>
      item R (j # idx) = (if j \<in> set (i # rows) then item (V j) idx else item A (j # idx))"
    using R(3) B(3) by simp
  ultimately show ?case using R(2) by blast
qed

lemma ravel_rank1: "shape A = [n] \<Longrightarrow> ravel A = map (\<lambda>k. item A [k]) [0..<n]"
  by (simp add: ravel_def)

lemma tolist1_ravel: "shape A = [n] \<Longrightarrow> tolist1 A = ravel A"
  by (simp add: ravel_def tolist1_def)

lemma fwd_less: "0 < n \<Longrightarrow> fwd n t i < n"
  by (simp add: fwd_def nat_less_iff)

lemma bwd_less: "0 < n \<Longrightarrow> bwd n t i < n"
  by (simp add: bwd_def nat_less_iff)

lemma bwd_fwd: "i < n \<Longrightarrow> bwd n t (fwd n t i) = i"
  by (simp add: bwd_def fwd_def mod_diff_left_eq)

lemma fwd_bwd: "i < n \<Longrightarrow> fwd n t (bwd n t i) = i"
  by (simp add: bwd_def fwd_def mod_add_left_eq)

lemma cyclic_shift_sum:
  fixes a b :: "nat \<Rightarrow> real"
  shows "(\<Sum>i<n. a i * b (fwd n t i)) = (\<Sum>i<n. a (bwd n t i) * b i)"
proof (rule sum.reindex_bij_witness [where i = "bwd n t" and j = "fwd n t"])
  fix i assume "i \<in> {..<n}"
  then have i: "i < n" by simp
  then have n: "0 < n" by simp
  show "bwd n t (fwd n t i) = i" using i by (rule bwd_fwd)
  show "fwd n t i \<in> {..<n}" using n by (simp add: fwd_less)
  show "fwd n t (bwd n t i) = i" using i by (rule fwd_bwd)
  show "bwd n t i \<in> {..<n}" using n by (simp add: bwd_less)
  show "a (bwd n t (fwd n t i)) * b (fwd n t i) = a i * b (fwd n t i)"
    using i by (simp add: bwd_fwd)
qed


lemma sum_list_upt: "(\<Sum>i\<leftarrow>[0..<n]. f i) = (\<Sum>i<n. (f i :: real))"
  by (simp add: interv_sum_list_conv_sum_set_nat lessThan_atLeast0)

lemma mean_all_rank1:
  "shape P = [N] \<Longrightarrow> mean_all P = series_mean (tolist1 P)"
  by (simp add: mean_all_def series_mean_def tolist1_ravel)

lemma lag_product_mean:
  assumes P: "shape P = [N]"
  shows "mean_all (amap2 (*) (amap (\<lambda>p. p - m) P) (amap (\<lambda>p. p - m) (roll P (- int t))))
       = (\<Sum>i<N. (item P [i] - m) * (item P [fwd N t i] - m)) / real N"
proof -
  have len: "length (ravel P) = N"
    using P by (simp add: ravel_rank1)
  have sh: "shape (amap2 (*) (amap (\<lambda>p. p - m) P) (amap (\<lambda>p. p - m) (roll P (- int t)))) = [N]"
    using P by (simp add: amap2_def amap_def)
  have rolled: "item (roll P (- int t)) [i] = item P [fwd N t i]" if "i < N" for i
  proof -
    from that have "fwd N t i < N" by (simp add: fwd_less)
    then show ?thesis
      using P len by (simp add: roll_def fwd_def ravel_rank1)
  qed
  have "ravel (amap2 (*) (amap (\<lambda>p. p - m) P) (amap (\<lambda>p. p - m) (roll P (- int t))))
      = map (\<lambda>i. (item P [i] - m) * (item P [fwd N t i] - m)) [0..<N]"
    unfolding ravel_rank1 [OF sh]
    by (rule map_cong) (simp_all add: amap2_def amap_def rolled)
  then show ?thesis
    by (simp add: mean_all_def sum_list_upt)
qed

lemma lagged_mean_rank1:
  assumes P: "shape P = [N]"
  shows "lagged_mean (tolist1 P) t
       = (\<Sum>i<N. (item P [i] - series_mean (tolist1 P)) *
                  (item P [bwd N t i] - series_mean (tolist1 P))) / real N"
proof (cases "N = 0")
  case True
  then show ?thesis using P by (simp add: lagged_mean_def tolist1_def)
next
  case False
  then have "bwd N t i < N" for i by (simp add: bwd_less)
  then show ?thesis
    using P by (simp add: lagged_mean_def tolist1_def sum_list_upt bwd_def)
qed

subsection \<open>Binning\<close>

lemma bin_py_unbound:
  "bin_py X binsize = bin_body (Inl NameError) X binsize"
  by (simp add: bin_py_def lookup_global_def statistics_globals_def)

lemma mean0_block:
  assumes "shape X = n # ts" "(i + 1) * b \<le> n"
  shows "shape (mean0 (slice0 X (int i * int b) ((int i + 1) * int b))) = ts"
    and "item (mean0 (slice0 X (int i * int b) ((int i + 1) * int b))) idx
           = (\<Sum>k\<leftarrow>[0..<b]. item X ((i * b + k) # idx)) / real b"
proof -
  have "int i * int b = int (i * b)" by simp
  then have lo: "slice_bound n (int i * int b) = i * b"
    using assms(2) unfolding slice_bound_def by (simp del: of_nat_mult of_nat_add)
  have "(int i + 1) * int b = int ((i + 1) * b)" by (simp add: algebra_simps)
  then have hi: "slice_bound n ((int i + 1) * int b) = (i + 1) * b"
    using assms(2) unfolding slice_bound_def by (simp del: of_nat_mult of_nat_add)
  show "shape (mean0 (slice0 X (int i * int b) ((int i + 1) * int b))) = ts"
    using assms(1) by (simp add: mean0_def slice0_def Let_def)
  show "item (mean0 (slice0 X (int i * int b) ((int i + 1) * int b))) idx
           = (\<Sum>k\<leftarrow>[0..<b]. item X ((i * b + k) # idx)) / real b"
    using assms(1) by (simp add: mean0_def slice0_def Let_def lo hi)
qed

lemma bin_body_bound:
  assumes X: "shape X = n # ts" and b: "2 \<le> b" and dv: "b dvd n"
  shows "\<exists>R. bin_body (Inr X) X (int b) = Inr R \<and> shape R = (n div b) # ts \<and>
           (\<forall>i idx. i < n div b \<and> in_range ts idx \<longrightarrow>
              item R (i # idx) = (\<Sum>k\<leftarrow>[0..<b]. item X ((i * b + k) # idx)) / real b)"
proof -
  define Z :: "real ndarray" where "Z = \<lparr>shape = (n div b) # ts, item = (\<lambda>_. 0)\<rparr>"
  define V where "V i = mean0 (slice0 X (int i * int b) ((int i + 1) * int b))" for i
  have Z: "shape Z = (n div b) # ts" by (simp add: Z_def)
  have blk: "(i + 1) * b \<le> n" if "i < n div b" for i
  proof -
    from that have "(i + 1) * b \<le> (n div b) * b" by (intro mult_le_mono1) simp
    also have "\<dots> = n" using dv by simp
    finally show ?thesis .
  qed
  have rows: "\<forall>i \<in> set [0..<n div b]. i < n div b \<and>
      Inr (V i) = (Inr (V i) :: error + real ndarray) \<and> shape (V i) = ts"
    using mean0_block(1) [OF X blk] by (simp add: V_def)
  from for_rows_rows [of Z "n div b" ts "[0..<n div b]" "\<lambda>i. Inr (V i)" V, OF Z rows]
  obtain R where R: "for_rows [0..<n div b] (\<lambda>i. Inr (V i)) Z = Inr R" "shape R = (n div b) # ts"
      "\<forall>j idx. in_range ts idx \<longrightarrow>
          item R (j # idx) = (if j \<in> set [0..<n div b] then item (V j) idx else item Z (j # idx))"
    by blast
  have m0: "int n mod int b = 0" using dv by (simp flip: of_nat_mod)
  have dd: "int n div int b = int (n div b)" by (simp add: zdiv_int)
  have run: "bin_body (Inr X) X (int b) = Inr R"
    using X b R(1) m0
    by (simp add: bin_body_def size0_def zeros_def Z_def V_def dd list_ex_iff comp_def
          del: of_nat_mult of_nat_add)
  have "item R (i # idx) = (\<Sum>k\<leftarrow>[0..<b]. item X ((i * b + k) # idx)) / real b"
    if "i < n div b" "in_range ts idx" for i idx
    using R(3) that mean0_block(2) [OF X blk [OF that(1)]] by (simp add: V_def)
  with run R(2) show ?thesis by blast
qed


lemma bin_py_NameError:
  "shape X \<noteq> [] \<Longrightarrow> binsize \<noteq> 0 \<Longrightarrow> binsize \<noteq> 1 \<Longrightarrow> bin_py X binsize = Inl NameError"
  by (cases "shape X") (simp_all add: bin_py_unbound bin_body_def size0_def)

text \<open>
  \<^bold>\<open>C1.\<close>  The claim: for every series \<open>S\<close> and every \<open>binSize \<ge> 1\<close> dividing
  \<open>len(S)\<close>, \<open>bin(S, binSize)\<close> returns the \<open>len(S)/binSize\<close> means of the consecutive blocks
  of \<open>binSize\<close> elements.  The source does not: for the series \<open>[1, 2, 3, 4]\<close> and bin
  size 2, where the claim gives \<open>[1.5, 3.5]\<close>, the call raises \<open>NameError\<close>, because the
  shape is read from the unbound name \<open>Ws\<close> (lemma \<open>bin_py_NameError\<close>: so does every
  bin size other than 0 and 1).  With the shape read from \<open>X\<close> the body computes the
  block means (lemma \<open>bin_body_bound\<close>).
\<close>

theorem bin_block_means_raises:
  "bin_py (array1 [1, 2, 3, 4]) 2 = Inl NameError"
  by (simp add: bin_py_unbound bin_body_def size0_def array1_def)

text \<open>
  Nor would a negative bin size be refused with the shape read from \<open>X\<close>: for a series
  of one element and bin size \<open>-2\<close> the body returns the empty series.
\<close>

lemma bin_body_negative_binsize:
  "map_sum id shape (bin_body (Inr (array1 [5])) (array1 [5]) (- 2)) = Inr [0]"
  by (simp add: bin_body_def size0_def array1_def zeros_def)

text \<open>
  \<^bold>\<open>C8\<close> (as amended).  The source has no check of the bin size and raises no
  \<open>InvalidArgument\<close>.  For bin size 0 and every array with a leading axis the call
  fails with the \<open>ZeroDivisionError\<close> of the remainder \<open>pl.size(X, axis = 0) % binsize\<close>,
  before anything else is computed.
\<close>

theorem bin_zero_binsize:
  "shape X \<noteq> [] \<Longrightarrow> bin_py X 0 = Inl ZeroDivisionError"
  by (cases "shape X") (simp_all add: bin_py_unbound bin_body_def size0_def)

theorem bin_zero_binsize_witness:
  "shape (array1 [1, 2 :: real]) \<noteq> [] \<and> bin_py (array1 [1, 2]) 0 = Inl ZeroDivisionError"
proof -
  have h: "shape (array1 [1, 2 :: real]) \<noteq> []" by (simp add: array1_def)
  show ?thesis using h bin_zero_binsize [OF h] by simp
qed

theorem bin_invalid_argument_counterexample:
  "bin_py (array1 [1, 2]) 0 \<noteq> Inl InvalidArgument"
  by (simp add: bin_py_unbound bin_body_def size0_def array1_def)

subsection \<open>Autocorrelation\<close>

lemma auto_correlation_run:
  assumes P: "shape P = n # ts"
  shows "\<exists>R. auto_correlation P = Inr R \<and> shape R = [n div 2] \<and>
           (\<forall>t<n div 2. item R [t] =
              mean_all (amap2 (*) (amap (\<lambda>p. p - mean_all P) P)
                                  (amap (\<lambda>p. p - mean_all P) (roll P (- int t)))))"
proof -
  define g where "g t = mean_all (amap2 (*) (amap (\<lambda>p. p - mean_all P) P)
                                   (amap (\<lambda>p. p - mean_all P) (roll P (- int t))))" for t
  define Z :: "real ndarray" where "Z = \<lparr>shape = [n div 2], item = (\<lambda>_. 0)\<rparr>"
  have Z: "shape Z = (n div 2) # []" by (simp add: Z_def)
  have rows: "\<forall>t \<in> set [0..<n div 2]. t < n div 2 \<and>
      Inr (scalar (g t)) = (Inr (scalar (g t)) :: error + real ndarray) \<and> shape (scalar (g t)) = []"
    by (simp add: scalar_def)
  from for_rows_rows [of Z "n div 2" "[]" "[0..<n div 2]" "\<lambda>t. Inr (scalar (g t))" "\<lambda>t. scalar (g t)", OF Z rows]
  obtain R where R: "for_rows [0..<n div 2] (\<lambda>t. Inr (scalar (g t))) Z = Inr R"
      "shape R = [n div 2]"
      "\<forall>j idx. in_range [] idx \<longrightarrow>
          item R (j # idx) = (if j \<in> set [0..<n div 2] then item (scalar (g j)) idx else item Z (j # idx))"
    by blast
  have run: "auto_correlation P = Inr R"
    using P R(1) by (simp add: auto_correlation_def size0_def zeros_def Z_def g_def)
  have "item R [t] = g t" if "t < n div 2" for t
    using R(3) that by (simp add: in_range_def scalar_def)
  with run R(2) show ?thesis unfolding g_def by blast
qed

text \<open>
  \<^bold>\<open>C2.\<close>  For every non-empty series of length \<open>N\<close>, \<open>auto_correlation\<close> returns a
  series of length \<open>N div 2\<close> whose value at each lag \<open>t\<close> is the mean over all \<open>i\<close> of
  \<open>(S[i] - \<mu>) * (S[(i - t) mod N] - \<mu>)\<close>; the value at lag 0 (present when
  \<open>N \<ge> 2\<close>) is the population variance.  The source shifts the series the other way
  (\<open>pl.roll(plaquettes, -t)\<close> reads \<open>S[(i + t) mod N]\<close>); the two means are equal because
  the sum runs over a full cycle.
\<close>

theorem auto_correlation_lagged_mean:
  assumes P: "shape P = [N]" and N: "0 < N"
  shows "\<exists>R. auto_correlation P = Inr R \<and> shape R = [N div 2] \<and>
           tolist1 R = map (lagged_mean (tolist1 P)) [0..<N div 2] \<and>
           (2 \<le> N \<longrightarrow> item R [0] = population_variance (tolist1 P))"
proof -
  define m where "m = series_mean (tolist1 P)"
  have mm: "mean_all P = m" using P by (simp add: m_def mean_all_rank1)
  from auto_correlation_run [OF P] obtain R where
    R: "auto_correlation P = Inr R" "shape R = [N div 2]"
       "\<forall>t<N div 2. item R [t] =
              mean_all (amap2 (*) (amap (\<lambda>p. p - m) P) (amap (\<lambda>p. p - m) (roll P (- int t))))"
    unfolding mm by blast
  have val: "item R [t] = lagged_mean (tolist1 P) t" if "t < N div 2" for t
  proof -
    have "(\<Sum>i<N. (item P [i] - m) * (item P [fwd N t i] - m))
        = (\<Sum>i<N. (item P [bwd N t i] - m) * (item P [i] - m))"
      by (rule cyclic_shift_sum [of "\<lambda>i. item P [i] - m" "\<lambda>i. item P [i] - m" N t])
    also have "\<dots> = (\<Sum>i<N. (item P [i] - m) * (item P [bwd N t i] - m))"
      by (simp add: mult.commute)
    finally show ?thesis
      using R(3) that
      unfolding lag_product_mean [OF P] lagged_mean_rank1 [OF P] m_def by simp
  qed
  have lst: "tolist1 R = map (lagged_mean (tolist1 P)) [0..<N div 2]"
    using R(2) by (simp add: tolist1_def val)
  have var: "lagged_mean (tolist1 P) 0 = population_variance (tolist1 P)"
  proof -
    have "(\<Sum>i<N. (item P [i] - m) * (item P [bwd N 0 i] - m)) = (\<Sum>i<N. (item P [i] - m)\<^sup>2)"
      by (rule sum.cong) (simp_all add: bwd_def power2_eq_square)
    moreover have "population_variance (tolist1 P) = (\<Sum>i<N. (item P [i] - m)\<^sup>2) / real N"
      unfolding m_def population_variance_def
      using P by (simp add: tolist1_def sum_list_upt)
    ultimately show ?thesis
      unfolding lagged_mean_rank1 [OF P] m_def by simp
  qed
  have "2 \<le> N \<longrightarrow> item R [0] = population_variance (tolist1 P)"
    using val [of 0] var by auto
  with R(1,2) lst show ?thesis by blast
qed

lemma upt_4: "[0..<4] = [0, 1, 2, 3]"
  by (simp add: upt_rec)

theorem auto_correlation_lagged_mean_witness:
  "shape (array1 [1, 3, 1, 3 :: real]) = [4] \<and> (0::nat) < 4 \<and> (2::nat) \<le> 4 \<and>
   (\<exists>R. auto_correlation (array1 [1, 3, 1, 3]) = Inr R \<and> shape R = [2] \<and>
        tolist1 R = [1, - 1] \<and> item R [0] = 1)"
proof -
  have h: "shape (array1 [1, 3, 1, 3 :: real]) = [4]" by (simp add: array1_def)
  have l: "tolist1 (array1 [1, 3, 1, 3 :: real]) = [1, 3, 1, 3]"
    by (simp add: tolist1_def array1_def upt_4)
  have "[0..<2] = [0, 1]"
    by (simp add: upt_rec)
  then have v: "map (lagged_mean [1, 3, 1, 3]) [0..<2] = [1, - 1]"
    by (simp add: lagged_mean_def series_mean_def upt_4)
  have p: "population_variance [1, 3, 1, 3] = 1"
    by (simp add: population_variance_def series_mean_def upt_4)
  show ?thesis
    using h auto_correlation_lagged_mean [OF h] by (simp add: l v p)
qed

text \<open>
  \<^bold>\<open>C9\<close> (as amended).  \<open>auto_correlation\<close> has no failure mode on a series, the
  empty one included: for every array with a leading axis of length \<open>n\<close> it returns a
  series of length \<open>n div 2\<close>, so the empty series gives the empty series and not an
  error.
\<close>

theorem auto_correlation_returns:
  "shape P = n # ts \<Longrightarrow> \<exists>R. auto_correlation P = Inr R \<and> shape R = [n div 2]"
  using auto_correlation_run [of P n ts] by blast

theorem auto_correlation_returns_witness:
  "shape (array1 ([] :: real list)) = [0] \<and>
   (\<exists>R. auto_correlation (array1 []) = Inr R \<and> shape R = [0])"
proof -
  have h: "shape (array1 ([] :: real list)) = 0 # []" by (simp add: array1_def)
  show ?thesis using h auto_correlation_returns [OF h] by simp
qed

theorem auto_correlation_empty_counterexample:
  "auto_correlation (array1 []) = Inr \<lparr>shape = [0], item = (\<lambda>_. 0)\<rparr>"
  by (simp add: auto_correlation_def array1_def size0_def zeros_def)


subsection \<open>Fitters and lattice spacing\<close>

declare potential_params.simps [simp del] calculate_potential.simps [simp del]

lemma for_rows_out_rows:
  assumes "shape A = n # ts"
    "\<forall>i \<in> set rows. i < n \<and> snd (f i) = Inr (V i) \<and> shape (V i) = ts"
  shows "\<exists>R. for_rows_out rows f A = (concat (map (\<lambda>i. fst (f i)) rows), Inr R) \<and>
           shape R = n # ts \<and>
           (\<forall>j idx. in_range ts idx \<longrightarrow>
              item R (j # idx) = (if j \<in> set rows then item (V j) idx else item A (j # idx)))"
  using assms
proof (induction rows arbitrary: A)
  case Nil
  then show ?case by simp
next
  case (Cons i rows)
  from Cons.prems have fi: "f i = (fst (f i), Inr (V i))" "shape (V i) = ts" "i < n"
    by (simp_all add: prod_eq_iff)
  from setitem0_row [OF Cons.prems(1) fi(3) fi(2)] obtain B where
    B: "setitem0 A i (V i) = Inr B" "shape B = n # ts"
       "\<forall>j idx. in_range ts idx \<longrightarrow>
              item B (j # idx) = (if j = i then item (V i) idx else item A (j # idx))"
    by blast
  from Cons.prems have rest:
    "\<forall>i \<in> set rows. i < n \<and> snd (f i) = Inr (V i) \<and> shape (V i) = ts"
    by simp
  from Cons.IH [OF B(2) rest] obtain R where
    R: "for_rows_out rows f B = (concat (map (\<lambda>i. fst (f i)) rows), Inr R)" "shape R = n # ts"
       "\<forall>j idx. in_range ts idx \<longrightarrow>
              item R (j # idx) = (if j \<in> set rows then item (V j) idx else item B (j # idx))"
    by blast
  have "for_rows_out (i # rows) f A = (concat (map (\<lambda>i. fst (f i)) (i # rows)), Inr R)"
    using B(1) R(1) by (subst for_rows_out.simps, subst fi(1)) simp
  moreover have "\<forall>j idx. in_range ts idx \<longrightarrow>
      item R (j # idx) = (if j \<in> set (i # rows) then item (V j) idx else item A (j # idx))"
    using R(3) B(3) by simp
  ultimately show ?case using R(2) by blast
qed

lemma solution_Inr [simp]: "solution (Inr (b, status)) = b"
  by (simp add: solution_def)

lemma optimize_leastsq_enough:
  "length x0 \<le> length (func x0) \<Longrightarrow> optimize_leastsq minpack func x0 = minpack func x0"
  by (simp add: optimize_leastsq_def)

lemma optimize_leastsq_short:
  "length (func x0) < length x0 \<Longrightarrow> optimize_leastsq minpack func x0 = Inl TypeError"
  by (simp add: optimize_leastsq_def)

lemma err_func_residuals:
  assumes "shape data = [n]"
  shows "tolist1 (err_func b (arange 1 (n + 1)) data)
       = map (\<lambda>k. tolist1 data ! k - (b ! 0 * real (k + 1) + b ! 1 / real (k + 1) + b ! 2))
           [0..<length (tolist1 data)]"
  using assms
  by (simp add: tolist1_def err_func_def pair_potential_def amap2_def amap_def arange_def)

lemma err_func_length:
  assumes "shape data = [n]"
  shows "length (tolist1 (err_func b (arange 1 (n + 1)) data)) = n"
  using assms
  by (simp add: tolist1_def err_func_def pair_potential_def amap2_def amap_def arange_def)

lemma potential_params_call:
  assumes "shape data = [n]"
  shows "potential_params minpack data
       = (case optimize_leastsq minpack (\<lambda>b. tolist1 (err_func b (arange 1 (n + 1)) data)) [1, 1, 1] of
            Inl e \<Rightarrow> ([], Inl e)
          | Inr (b, result) \<Rightarrow> (fit_warning result, Inr (array1 b)))"
proof -
  have n: "prod_list (shape data) = n" "length (shape data) = 1"
    using assms by simp_all
  show ?thesis
    by (subst potential_params.simps)
       (simp only: n if_True Let_def fit_warning_def simp_thms)
qed

lemma potential_params_rank1:
  assumes "shape data = [n]" and "3 \<le> n"
    and "fit_potential_curve minpack (tolist1 data) = Inr (b, status)"
  shows "potential_params minpack data = (fit_warning status, Inr (array1 b))"
proof -
  have call: "minpack (\<lambda>b. tolist1 (err_func b (arange 1 (n + 1)) data)) [1, 1, 1] = Inr (b, status)"
    using assms(3) unfolding fit_potential_curve_def err_func_residuals [OF assms(1)] .
  have "optimize_leastsq minpack (\<lambda>b. tolist1 (err_func b (arange 1 (n + 1)) data)) [1, 1, 1]
      = Inr (b, status)"
    using assms(2) call err_func_length [OF assms(1), of "[1, 1, 1]"]
    by (simp add: optimize_leastsq_def)
  then show ?thesis
    by (simp add: potential_params_call [OF assms(1)])
qed

lemma potential_params_short_curve:
  assumes "shape data = [n]" and "n < 3"
  shows "potential_params minpack data = ([], Inl TypeError)"
  using assms(2) err_func_length [OF assms(1), of "[1, 1, 1]"]
  by (simp add: potential_params_call [OF assms(1)] optimize_leastsq_def)

lemma fit_warning_iff:
  "fit_warning status = (if status \<in> {1, 2, 3, 4} then [] else [''Warning! Fit failed.''])"
  by (auto simp: fit_warning_def)

lemma array1_shape_tolist1:
  "shape (array1 b) = [length b]" "tolist1 (array1 b) = b"
  by (simp_all add: tolist1_def array1_def map_nth)

text \<open>
  \<^bold>\<open>C7\<close> (as amended).  On a single curve of at least three points \<open>potential_params\<close>
  never raises because of the solver's status: whenever the solver returns three
  parameters \<open>b\<close> and a status, whatever the status, the call returns exactly \<open>b\<close>, an
  array of shape \<open>[3]\<close>, and it prints the warning when, and only when, the status is
  outside \<open>{1, 2, 3, 4}\<close>.  The call does not always return: an exception of
  \<open>leastsq\<close> itself is not caught, and on a curve of fewer than three points
  \<open>leastsq\<close> raises \<open>TypeError\<close> (lemma \<open>potential_params_short_curve\<close>).
\<close>

theorem potential_params_soft_failure:
  assumes "shape data = [n]" and "3 \<le> n"
    and "minpack (\<lambda>b. tolist1 (err_func b (arange 1 (n + 1)) data)) [1, 1, 1] = Inr (b, status)"
    and "length b = 3"
  shows "potential_params minpack data
       = (if status \<in> {1, 2, 3, 4} then [] else [''Warning! Fit failed.''], Inr (array1 b))
         \<and> shape (array1 b) = [3] \<and> tolist1 (array1 b) = b"
proof -
  have "fit_potential_curve minpack (tolist1 data) = Inr (b, status)"
    using assms(3) unfolding fit_potential_curve_def err_func_residuals [OF assms(1)] .
  then show ?thesis
    using assms(4)
    by (simp add: potential_params_rank1 [OF assms(1,2)] fit_warning_iff array1_shape_tolist1)
qed

lemma upt_3: "[0..<3] = [0, 1, 2]"
  by (simp add: upt_rec)

theorem potential_params_soft_failure_witness:
  "shape (array1 [4, 3, 5 :: real]) = [3] \<and> (3 :: nat) \<le> 3 \<and>
   one_step 5 (\<lambda>b. tolist1 (err_func b (arange 1 (3 + 1)) (array1 [4, 3, 5]))) [1, 1, 1]
      = Inr ([2, 1 / 2, 5 / 3], 5) \<and>
   length [2, 1 / 2, 5 / 3 :: real] = 3 \<and>
   potential_params (one_step 5) (array1 [4, 3, 5])
      = ([''Warning! Fit failed.''], Inr (array1 [2, 1 / 2, 5 / 3])) \<and>
   shape (array1 [2, 1 / 2, 5 / 3 :: real]) = [3] \<and>
   tolist1 (array1 [2, 1 / 2, 5 / 3 :: real]) = [2, 1 / 2, 5 / 3]"
proof -
  have h: "shape (array1 [4, 3, 5 :: real]) = [3]" by (simp add: array1_def)
  have c: "one_step 5 (\<lambda>b. tolist1 (err_func b (arange 1 (3 + 1)) (array1 [4, 3, 5]))) [1, 1, 1]
      = Inr ([2, 1 / 2, 5 / 3], 5)"
    unfolding err_func_residuals [OF h]
    by (simp add: one_step_def array1_shape_tolist1 upt_3)
  show ?thesis
    using h c
      potential_params_soft_failure
        [of "array1 [4, 3, 5]" 3 "one_step 5" "[2, 1 / 2, 5 / 3]" 5]
    by simp
qed

text \<open>
  On the curve \<open>[1, 2]\<close> there are two residuals for three parameters: the call
  raises \<open>TypeError\<close> and returns no parameters.
\<close>

theorem potential_params_raises_counterexample:
  "potential_params (one_step 1) (array1 [1, 2]) = ([], Inl TypeError)"
  by (rule potential_params_short_curve [of _ 2]) (simp_all add: array1_def)


lemma returns_paramsD:
  assumes "returns_params minpack" and "length x0 \<le> length (g x0)"
  shows "\<exists>b status. minpack g x0 = Inr (b, status) \<and> length b = length x0"
  using assms unfolding returns_params_def by blast

lemma f_lambda_residuals:
  assumes "shape w = [T]"
  shows "tolist1 (f_lambda b (arange 1 (T + 1)) w)
       = map (\<lambda>k. tolist1 w ! k - b ! 0 * exp (- (b ! 1) * real (k + 1))) [0..<length (tolist1 w)]"
  using assms
  by (simp add: tolist1_def f_lambda_def amap2_def amap_def arange_def)

lemma f_lambda_length:
  assumes "shape w = [T]"
  shows "length (tolist1 (f_lambda b (arange 1 (T + 1)) w)) = T"
  using assms
  by (simp add: tolist1_def f_lambda_def amap2_def amap_def arange_def)

lemma calculate_potential_loop:
  assumes W: "shape W = [R, T]"
  shows "calculate_potential minpack W
       = for_rows [0..<R]
           (\<lambda>i. bind (optimize_leastsq minpack
                        (\<lambda>b. tolist1 (f_lambda b (arange 1 (T + 1)) (sub W i))) [1, 1])
                  (\<lambda>(params, result). bind (getitem params 1) (\<lambda>p. Inr (scalar p))))
           \<lparr>shape = [R], item = (\<lambda>_. 0)\<rparr>"
proof -
  have sh: "length (shape W) = 2" "shape W ! 0 = R" "shape W ! 1 = T"
    using W by simp_all
  have z: "zeros [int R] = Inr \<lparr>shape = [R], item = (\<lambda>_. 0 :: real)\<rparr>"
    by (simp add: zeros_def)
  show ?thesis
    by (subst calculate_potential.simps) (simp only: sh z if_True bind_Inr Let_def simp_thms)
qed

lemma calculate_potential_rank2:
  assumes W: "shape W = [R, T]" and T: "2 \<le> T" and ok: "returns_params minpack"
  shows "\<exists>P. calculate_potential minpack W = Inr P \<and> shape P = [R] \<and>
           (\<forall>i<R. item P [i] = fit_decay_rate minpack (tolist1 (sub W i)))"
proof -
  define g where "g i =
     bind (optimize_leastsq minpack
             (\<lambda>b. tolist1 (f_lambda b (arange 1 (T + 1)) (sub W i))) [1, 1])
       (\<lambda>(params, result). bind (getitem params 1) (\<lambda>p. Inr (scalar p)))" for i
  define Z :: "real ndarray" where "Z = \<lparr>shape = [R], item = (\<lambda>_. 0)\<rparr>"
  have sw: "shape (sub W i) = [T]" for i
    using W by (simp add: sub_def)
  have gi: "g i = Inr (scalar (fit_decay_rate minpack (tolist1 (sub W i))))" for i
  proof -
    let ?res = "\<lambda>b. tolist1 (f_lambda b (arange 1 (T + 1)) (sub W i))"
    have enough: "length [1, 1 :: real] \<le> length (?res [1, 1])"
      using T by (simp only: f_lambda_length [OF sw]) simp
    from returns_paramsD [where g = ?res and ?x0.0 = "[1, 1]", OF ok enough]
    obtain params result where
      pr: "minpack ?res [1, 1] = Inr (params, result)" "length params = length [1, 1 :: real]"
      by blast
    have call: "optimize_leastsq minpack ?res [1, 1] = Inr (params, result)"
      using enough pr(1) by (simp only: optimize_leastsq_def not_less [symmetric] if_False)
    have rate: "fit_decay_rate minpack (tolist1 (sub W i)) = params ! 1"
      using pr(1) unfolding fit_decay_rate_def f_lambda_residuals [OF sw] by simp
    have "getitem params 1 = Inr (params ! 1)"
      using pr(2) by (simp add: getitem_def)
    then show ?thesis
      unfolding g_def call rate by simp
  qed
  have gfun: "(\<lambda>i. bind (optimize_leastsq minpack
                        (\<lambda>b. tolist1 (f_lambda b (arange 1 (T + 1)) (sub W i))) [1, 1])
                  (\<lambda>(params, result). bind (getitem params 1) (\<lambda>p. Inr (scalar p)))) = g"
    by (rule ext) (simp only: g_def)
  have run: "calculate_potential minpack W = for_rows [0..<R] g Z"
    unfolding calculate_potential_loop [OF W] gfun Z_def ..
  have Z: "shape Z = R # []" by (simp add: Z_def)
  have rows: "\<forall>i \<in> set [0..<R]. i < R \<and>
      g i = Inr (scalar (fit_decay_rate minpack (tolist1 (sub W i)))) \<and>
      shape (scalar (fit_decay_rate minpack (tolist1 (sub W i)))) = []"
    by (simp add: gi scalar_def)
  from for_rows_rows [OF Z rows] obtain P where
    P: "for_rows [0..<R] g Z = Inr P" "shape P = [R]"
       "\<forall>j idx. in_range [] idx \<longrightarrow> item P (j # idx) =
          (if j \<in> set [0..<R] then item (scalar (fit_decay_rate minpack (tolist1 (sub W j)))) idx
           else item Z (j # idx))"
    by blast
  have "item P [i] = fit_decay_rate minpack (tolist1 (sub W i))" if "i < R" for i
    using P(3) that by (simp add: in_range_def scalar_def)
  with run P(1,2) show ?thesis by simp
qed

lemma calculate_potential_short_profile:
  assumes W: "shape W = [R, T]" and T: "T < 2" and R: "0 < R"
  shows "calculate_potential minpack W = Inl TypeError"
proof -
  have sw: "shape (sub W 0) = [T]"
    using W by (simp add: sub_def)
  have "optimize_leastsq minpack
          (\<lambda>b. tolist1 (f_lambda b (arange 1 (T + 1)) (sub W 0))) [1, 1] = Inl TypeError"
    using T by (simp only: optimize_leastsq_def f_lambda_length [OF sw]) simp
  moreover have "[0..<R] = 0 # [1..<R]"
    using R by (simp add: upt_conv_Cons)
  ultimately show ?thesis
    by (simp add: calculate_potential_loop [OF W])
qed

lemma calculate_potential_rank3:
  assumes W: "shape W = [M, R, T]" and T: "2 \<le> T" and ok: "returns_params minpack"
  shows "\<exists>P. calculate_potential minpack W = Inr P \<and> shape P = [M, R] \<and>
           (\<forall>m<M. \<forall>r<R. item P [m, r] = fit_decay_rate minpack (tolist1 (sub (sub W m) r)))"
proof -
  define V where "V m = projr (calculate_potential minpack (sub W m))" for m
  define Z :: "real ndarray" where "Z = \<lparr>shape = [M, R], item = (\<lambda>_. 0)\<rparr>"
  have sw: "shape (sub W m) = [R, T]" for m
    using W by (simp add: sub_def)
  have Vm: "calculate_potential minpack (sub W m) = Inr (V m)" "shape (V m) = [R]"
    "\<forall>r<R. item (V m) [r] = fit_decay_rate minpack (tolist1 (sub (sub W m) r))" for m
    using calculate_potential_rank2 [OF sw T ok, of m] unfolding V_def by auto
  have sh: "length (shape W) \<noteq> 2" "size0 W = Inr M"
    using W by (simp_all add: size0_def)
  have z: "zeros (map int (butlast (shape W))) = Inr Z"
    using W by (simp add: zeros_def Z_def)
  have run: "calculate_potential minpack W
           = for_rows [0..<M] (\<lambda>i. calculate_potential minpack (sub W i)) Z"
    by (subst calculate_potential.simps) (simp only: sh z if_False sum.case)
  have Z: "shape Z = M # [R]" by (simp add: Z_def)
  have rows: "\<forall>i \<in> set [0..<M]. i < M \<and>
      calculate_potential minpack (sub W i) = Inr (V i) \<and> shape (V i) = [R]"
    by (simp add: Vm)
  from for_rows_rows [OF Z rows] obtain P where
    P: "for_rows [0..<M] (\<lambda>i. calculate_potential minpack (sub W i)) Z = Inr P" "shape P = [M, R]"
       "\<forall>j idx. in_range [R] idx \<longrightarrow> item P (j # idx) =
          (if j \<in> set [0..<M] then item (V j) idx else item Z (j # idx))"
    by blast
  have "item P [m, r] = fit_decay_rate minpack (tolist1 (sub (sub W m) r))"
    if "m < M" "r < R" for m r
    using P(3) that Vm(3) by (simp add: in_range_def)
  with run P(1,2) show ?thesis by simp
qed

lemma fit_potential_curve_returns:
  assumes ok: "returns_params minpack" and v: "3 \<le> length v"
  shows "\<exists>b status. fit_potential_curve minpack v = Inr (b, status) \<and> length b = 3"
proof -
  let ?res = "\<lambda>b. map (\<lambda>k. v ! k - (b ! 0 * real (k + 1) + b ! 1 / real (k + 1) + b ! 2))
                    [0..<length v]"
  have enough: "length [1, 1, 1 :: real] \<le> length (?res [1, 1, 1])"
    using v by simp
  from returns_paramsD [where g = ?res and ?x0.0 = "[1, 1, 1]", OF ok enough]
  obtain b status where "minpack ?res [1, 1, 1] = Inr (b, status)" "length b = length [1, 1, 1 :: real]"
    by blast
  then have "fit_potential_curve minpack v = Inr (b, status)" "length b = 3"
    unfolding fit_potential_curve_def by simp_all
  then show ?thesis by blast
qed

lemma potential_params_curve:
  assumes D: "shape data = [R]" and R: "3 \<le> R" and ok: "returns_params minpack"
  shows "\<exists>out. potential_params minpack data
           = (out, Inr (array1 (solution (fit_potential_curve minpack (tolist1 data)))))"
    and "length (solution (fit_potential_curve minpack (tolist1 data))) = 3"
proof -
  have "3 \<le> length (tolist1 data)"
    using D R by (simp add: tolist1_def)
  from fit_potential_curve_returns [OF ok this] obtain b status where
    bs: "fit_potential_curve minpack (tolist1 data) = Inr (b, status)" "length b = 3"
    by blast
  show "\<exists>out. potential_params minpack data
           = (out, Inr (array1 (solution (fit_potential_curve minpack (tolist1 data)))))"
    by (simp add: potential_params_rank1 [OF D R bs(1)] bs(1))
  show "length (solution (fit_potential_curve minpack (tolist1 data))) = 3"
    by (simp add: bs)
qed

lemma potential_params_rank2:
  assumes D: "shape data = [M, R]" and R: "3 \<le> R" and ok: "returns_params minpack"
  shows "\<exists>out B. potential_params minpack data = (out, Inr B) \<and> shape B = [M, 3] \<and>
           (\<forall>m<M. \<forall>j<3. item B [m, j]
               = solution (fit_potential_curve minpack (tolist1 (sub data m))) ! j)"
proof -
  define b where "b m = solution (fit_potential_curve minpack (tolist1 (sub data m)))" for m
  define Z :: "real ndarray" where "Z = \<lparr>shape = [M, 3], item = (\<lambda>_. 0)\<rparr>"
  have sd: "shape (sub data m) = [R]" for m
    using D by (simp add: sub_def)
  have len: "length (b m) = 3" for m
    unfolding b_def by (rule potential_params_curve(2) [OF sd R ok])
  have pm: "snd (potential_params minpack (sub data m)) = Inr (array1 (b m))"
    "shape (array1 (b m)) = [3]" for m
    using potential_params_curve(1) [OF sd R ok, of m] len [of m]
    by (auto simp: b_def array1_def)
  have sh: "length (shape data) \<noteq> 1" "size0 data = Inr M"
    using D by (simp_all add: size0_def)
  have z: "zeros [int M, 3] = Inr Z"
    by (simp add: zeros_def Z_def)
  have run: "potential_params minpack data
           = for_rows_out [0..<M] (\<lambda>i. potential_params minpack (sub data i)) Z"
    by (subst potential_params.simps) (simp only: sh z if_False sum.case)
  have Z: "shape Z = M # [3]" by (simp add: Z_def)
  have rows: "\<forall>i \<in> set [0..<M]. i < M \<and>
      snd (potential_params minpack (sub data i)) = Inr (array1 (b i)) \<and> shape (array1 (b i)) = [3]"
    by (simp add: pm)
  from for_rows_out_rows [OF Z rows] obtain out B where
    B: "for_rows_out [0..<M] (\<lambda>i. potential_params minpack (sub data i)) Z = (out, Inr B)"
       "shape B = [M, 3]"
       "\<forall>j idx. in_range [3] idx \<longrightarrow> item B (j # idx) =
          (if j \<in> set [0..<M] then item (array1 (b j)) idx else item Z (j # idx))"
    by blast
  have "item B [m, j] = b m ! j" if "m < M" "j < 3" for m j
    using B(3) that by (simp add: in_range_def array1_def)
  with run B(1,2) show ?thesis unfolding b_def by auto
qed

lemma tolist1_sub_rank2:
  "shape W = [R, T] \<Longrightarrow> tolist1 (sub W i) = map (\<lambda>k. item W [i, k]) [0..<T]"
  by (simp add: tolist1_def sub_def)

lemma returns_params_one_step: "returns_params (one_step status)"
  by (simp add: returns_params_def one_step_def)

lemma one_step_decay_rate:
  "fit_decay_rate (one_step status) [w0, w1] = 1 + w1 - exp (- 2)"
  by (simp add: fit_decay_rate_def one_step_def upt_rec)

lemma one_step_potential_curve:
  "fit_potential_curve (one_step status) [v0, v1, v2]
     = Inr ([v0 - 2, v1 - 5 / 2, v2 - 10 / 3], status)"
  by (simp add: fit_potential_curve_def one_step_def upt_3)

text \<open>
  \<^bold>\<open>C10.\<close>  For a single batch of Wilson loops (\<open>R\<close> separations, \<open>T \<ge> 2\<close>
  time slices) the decay fit of separation \<open>i\<close> hands the solver the residuals
  \<open>W[i, k] - b0 * exp(-b1 * (k + 1))\<close> for \<open>k = 0, ..., T - 1\<close>: the element at index \<open>k\<close> is
  fitted at time \<open>k + 1\<close>.  The result holds, for each separation, the second of the
  parameters the solver returns.  (The solver is any function that returns, with as
  many parameters as the guess has, when it is given at least as many residuals as
  parameters; with a single time slice \<open>leastsq\<close> raises \<open>TypeError\<close>, lemma
  \<open>calculate_potential_short_profile\<close>.)
\<close>

theorem calculate_potential_fits_times_from_one:
  assumes W: "shape W = [R, T]" and T: "2 \<le> T" and ok: "returns_params minpack"
  shows "\<exists>P. calculate_potential minpack W = Inr P \<and> shape P = [R] \<and>
           (\<forall>i<R. item P [i] =
              solution
                (minpack (\<lambda>b. map (\<lambda>k. item W [i, k] - b ! 0 * exp (- (b ! 1) * real (k + 1)))
                                    [0..<T]) [1, 1]) ! 1)"
proof -
  have "fit_decay_rate minpack (tolist1 (sub W i))
      = solution
          (minpack (\<lambda>b. map (\<lambda>k. item W [i, k] - b ! 0 * exp (- (b ! 1) * real (k + 1)))
                                   [0..<T]) [1, 1]) ! 1" for i
  proof -
    have "(\<lambda>b. map (\<lambda>k. tolist1 (sub W i) ! k - b ! 0 * exp (- (b ! 1) * real (k + 1)))
                  [0..<length (tolist1 (sub W i))])
        = (\<lambda>b :: real list. map (\<lambda>k. item W [i, k] - b ! 0 * exp (- (b ! 1) * real (k + 1))) [0..<T])"
      by (rule ext) (simp add: tolist1_sub_rank2 [OF W])
    then show ?thesis unfolding fit_decay_rate_def by simp
  qed
  with calculate_potential_rank2 [OF W T ok] show ?thesis by simp
qed

text \<open>
  Three separations with two time slices each, and the solver \<open>one_step\<close>, whose
  second parameter is the guess plus the residual of index 1 at the guess: the fitted
  value of separation \<open>i\<close> is \<open>1 + (W[i, 1] - exp(-2))\<close>, the residual at time 2.
\<close>

theorem calculate_potential_fits_times_from_one_witness:
  "shape (array2 [[9, 2], [8, 4], [7, 1 :: real]]) = [3, 2] \<and> (2 :: nat) \<le> 2 \<and>
   returns_params (one_step 1) \<and>
   (\<exists>P. calculate_potential (one_step 1) (array2 [[9, 2], [8, 4], [7, 1]]) = Inr P \<and>
        shape P = [3] \<and>
        item P [0] = 3 - exp (- 2) \<and> item P [1] = 5 - exp (- 2) \<and> item P [2] = 2 - exp (- 2))"
proof -
  have h: "shape (array2 [[9, 2], [8, 4], [7, 1 :: real]]) = [3, 2]" by (simp add: array2_def)
  have k: "returns_params (one_step 1)" by (rule returns_params_one_step)
  from calculate_potential_fits_times_from_one [OF h order_refl k] obtain P where
    P: "calculate_potential (one_step 1) (array2 [[9, 2], [8, 4], [7, 1]]) = Inr P"
       "shape P = [3]"
       "\<forall>i<3. item P [i] =
              solution
                (one_step 1
                   (\<lambda>b. map (\<lambda>k. item (array2 [[9, 2], [8, 4], [7, 1]]) [i, k]
                                   - b ! 0 * exp (- (b ! 1) * real (k + 1)))
                          [0..<2]) [1, 1]) ! 1"
    by blast
  have "item P [0] = 3 - exp (- 2)" "item P [1] = 5 - exp (- 2)" "item P [2] = 2 - exp (- 2)"
    using P(3) by (simp_all add: one_step_def array2_def upt_rec)
  with h k P(1,2) show ?thesis by simp
qed


lemma sommer_item:
  "item (sommer p1 p0) idx = 0.5 / sqrt ((1.65 + item p1 idx) / item p0 idx)"
  "shape (sommer p1 p0) = shape p1"
  by (simp_all add: sommer_def amap_def amap2_def)

lemma calculate_spacing_single:
  assumes W: "shape W = [R, T]" and R: "3 \<le> R" and T: "2 \<le> T" and ok: "returns_params minpack"
  shows "\<exists>out A. calculate_spacing minpack W = (out, Inr A) \<and> shape A = [] \<and>
           item A [] = lattice_spacing minpack (tolist2 W)"
proof -
  from calculate_potential_rank2 [OF W T ok] obtain P where
    P: "calculate_potential minpack W = Inr P" "shape P = [R]"
       "\<forall>i<R. item P [i] = fit_decay_rate minpack (tolist1 (sub W i))"
    by blast
  have lst: "tolist1 P = map (fit_decay_rate minpack) (tolist2 W)"
    using P(2,3) W by (simp add: tolist1_def [of P] tolist2_def)
  define b where "b = solution (fit_potential_curve minpack (tolist1 P))"
  have len: "length b = 3"
    unfolding b_def by (rule potential_params_curve(2) [OF P(2) R ok])
  obtain out where fp: "potential_params minpack P = (out, Inr (array1 b))"
    unfolding b_def using potential_params_curve(1) [OF P(2) R ok] by blast
  have rows: "getrow (array1 b) 1 = Inr (sub (array1 b) 1)" "getrow (array1 b) 0 = Inr (sub (array1 b) 0)"
    using len by (simp_all add: getrow_def array1_def)
  have rk: "\<not> 1 < length (shape (array1 b))"
    by (simp add: array1_def)
  have run: "calculate_spacing minpack W = (out, Inr (sommer (sub (array1 b) 1) (sub (array1 b) 0)))"
    by (simp add: calculate_spacing_def P(1) fp rows rk del: One_nat_def)
  have "shape (sommer (sub (array1 b) 1) (sub (array1 b) 0)) = []"
    by (simp add: sommer_item sub_def array1_def)
  moreover have "item (sommer (sub (array1 b) 1) (sub (array1 b) 0)) []
      = lattice_spacing minpack (tolist2 W)"
    by (simp add: sommer_item sub_def array1_def lattice_spacing_def potential_fit_def
          sommer_scale_def b_def lst)
  ultimately show ?thesis using run by blast
qed

lemma calculate_spacing_batch:
  assumes W: "shape W = [M, R, T]" and R: "3 \<le> R" and T: "2 \<le> T"
    and ok: "returns_params minpack"
  shows "\<exists>out A. calculate_spacing minpack W = (out, Inr A) \<and> shape A = [M] \<and>
           (\<forall>m<M. item A [m] = lattice_spacing minpack (tolist2 (sub W m)))"
proof -
  from calculate_potential_rank3 [OF W T ok] obtain P where
    P: "calculate_potential minpack W = Inr P" "shape P = [M, R]"
       "\<forall>m<M. \<forall>r<R. item P [m, r] = fit_decay_rate minpack (tolist1 (sub (sub W m) r))"
    by blast
  from potential_params_rank2 [OF P(2) R ok] obtain out B where
    B: "potential_params minpack P = (out, Inr B)" "shape B = [M, 3]"
       "\<forall>m<M. \<forall>j<3. item B [m, j] = solution (fit_potential_curve minpack (tolist1 (sub P m))) ! j"
    by blast
  have lst: "tolist1 (sub P m) = map (fit_decay_rate minpack) (tolist2 (sub W m))" if "m < M" for m
  proof -
    have "shape (sub W m) = [R, T]"
      using W by (simp add: sub_def)
    then have "tolist2 (sub W m) = map (\<lambda>r. tolist1 (sub (sub W m) r)) [0..<R]"
      by (simp add: tolist2_def)
    then show ?thesis
      using P(3) that by (simp add: tolist1_sub_rank2 [OF P(2)])
  qed
  define c1 :: "real ndarray" where "c1 = \<lparr>shape = [M], item = (\<lambda>idx. item B (hd idx # 1 # tl idx))\<rparr>"
  define c0 :: "real ndarray" where "c0 = \<lparr>shape = [M], item = (\<lambda>idx. item B (hd idx # 0 # tl idx))\<rparr>"
  have cols: "column B 1 = Inr c1" "column B 0 = Inr c0"
    using B(2) by (simp_all add: column_def c1_def c0_def)
  have run: "calculate_spacing minpack W = (out, Inr (sommer c1 c0))"
    using B(2) by (simp add: calculate_spacing_def P(1) B(1) cols del: One_nat_def)
  have "shape (sommer c1 c0) = [M]"
    by (simp add: sommer_item c1_def)
  moreover have "item (sommer c1 c0) [m] = lattice_spacing minpack (tolist2 (sub W m))" if "m < M" for m
    using B(3) that
    by (simp add: sommer_item c1_def c0_def lattice_spacing_def potential_fit_def
          sommer_scale_def lst)
  ultimately show ?thesis using run by blast
qed

text \<open>
  \<^bold>\<open>C6.\<close>  \<open>calculate_spacing\<close> is the decay fit of every separation, then the
  potential fit of the resulting curve, then the Sommer relation on the first and
  second fitted parameters.  On a single set of Wilson loops (rank 2) the fitted
  parameters have no batch axis and the result is one number; on a batch (rank 3) they
  have one and the result holds, for each member, the lattice spacing of that member.
  There are at least three separations and two time slices (with fewer, \<open>leastsq\<close>
  raises \<open>TypeError\<close>), and the solver returns, with as many parameters as the guess
  has, on such input.  The value is stated where the quotient under the root is
  positive; elsewhere float64 gives nan or inf.
\<close>

theorem calculate_spacing_composition:
  assumes ok: "returns_params minpack"
  shows "(shape W = [R, T] \<and> 3 \<le> R \<and> 2 \<le> T \<longrightarrow>
            (\<exists>out A. calculate_spacing minpack W = (out, Inr A) \<and> shape A = [] \<and>
               (sommer_defined (potential_fit minpack (tolist2 W)) \<longrightarrow>
                  item A [] = lattice_spacing minpack (tolist2 W)))) \<and>
         (shape Ws = [M, R', T'] \<and> 3 \<le> R' \<and> 2 \<le> T' \<longrightarrow>
            (\<exists>out A. calculate_spacing minpack Ws = (out, Inr A) \<and> shape A = [M] \<and>
               (\<forall>m<M. sommer_defined (potential_fit minpack (tolist2 (sub Ws m))) \<longrightarrow>
                  item A [m] = lattice_spacing minpack (tolist2 (sub Ws m)))))"
proof (intro conjI impI)
  assume "shape W = [R, T] \<and> 3 \<le> R \<and> 2 \<le> T"
  then show "\<exists>out A. calculate_spacing minpack W = (out, Inr A) \<and> shape A = [] \<and>
               (sommer_defined (potential_fit minpack (tolist2 W)) \<longrightarrow>
                  item A [] = lattice_spacing minpack (tolist2 W))"
    using calculate_spacing_single [of W R T minpack] ok by blast
next
  assume "shape Ws = [M, R', T'] \<and> 3 \<le> R' \<and> 2 \<le> T'"
  then show "\<exists>out A. calculate_spacing minpack Ws = (out, Inr A) \<and> shape A = [M] \<and>
               (\<forall>m<M. sommer_defined (potential_fit minpack (tolist2 (sub Ws m))) \<longrightarrow>
                  item A [m] = lattice_spacing minpack (tolist2 (sub Ws m)))"
    using calculate_spacing_batch [of Ws M R' T' minpack] ok by blast
qed

lemma one_step_potential_fit:
  "potential_fit (one_step status) [[a0, w0], [a1, w1], [a2, w2]]
     = [w0 - exp (- 2) - 1, w1 - exp (- 2) - 3 / 2, w2 - exp (- 2) - 7 / 3]"
  by (simp add: potential_fit_def one_step_decay_rate one_step_potential_curve)

lemma quotient_above_exp_positive:
  fixes c d :: real
  assumes "1 \<le> c" and "1 \<le> d"
  shows "0 < (c - exp (- 2)) / (d - exp (- 2))"
proof -
  have e: "exp (- 2 :: real) < 1" by simp
  have "0 < c - exp (- 2)" using assms(1) e by linarith
  moreover have "0 < d - exp (- 2)" using assms(2) e by linarith
  ultimately show ?thesis by (rule divide_pos_pos)
qed


lemma tolist2_array2:
  "tolist2 (array2 [[a0, w0], [a1, w1], [a2, w2]]) = [[a0, w0], [a1, w1], [a2, w2]]"
  by (simp add: tolist2_def tolist1_def array2_def sub_def upt_rec)

lemma tolist2_sub_array3:
  "tolist2 (sub (array3 [[[a0, w0], [a1, w1], [a2, w2]], [[c0, u0], [c1, u1], [c2, u2]]]) 0)
     = [[a0, w0], [a1, w1], [a2, w2]]"
  "tolist2 (sub (array3 [[[a0, w0], [a1, w1], [a2, w2]], [[c0, u0], [c1, u1], [c2, u2]]]) 1)
     = [[c0, u0], [c1, u1], [c2, u2]]"
  by (simp_all add: tolist2_def tolist1_def array3_def sub_def upt_rec)

lemma one_step_lattice_spacing:
  "lattice_spacing (one_step status) [[a0, w0], [a1, w1], [a2, w2]]
     = 0.5 / sqrt ((w1 + 0.15 - exp (- 2)) / (w0 - 1 - exp (- 2)))"
  "sommer_defined (potential_fit (one_step status) [[a0, w0], [a1, w1], [a2, w2]])
     = (0 < (w1 + 0.15 - exp (- 2)) / (w0 - 1 - exp (- 2)))"
  by (simp_all add: lattice_spacing_def sommer_scale_def sommer_defined_def one_step_potential_fit
        algebra_simps)

text \<open>
  Three separations, two time slices, two batch members, and the solver \<open>one_step\<close>.
  The decay fits give the curve \<open>1 + W[i, 1] - exp(-2)\<close>; its potential fit gives
  \<open>b0 = v[0] - 2\<close>, \<open>b1 = v[1] - 5/2\<close>, \<open>b2 = v[2] - 10/3\<close>; the spacing is
  \<open>0.5 / sqrt((1.65 + b1) / b0)\<close>.
\<close>

theorem calculate_spacing_composition_witness:
  "returns_params (one_step 1) \<and>
   (shape (array2 [[9, 2], [8, 4], [7, 1 :: real]]) = [3, 2] \<and> (3 :: nat) \<le> 3 \<and> (2 :: nat) \<le> 2) \<and>
   sommer_defined (potential_fit (one_step 1) (tolist2 (array2 [[9, 2], [8, 4], [7, 1]]))) \<and>
   (\<exists>out A. calculate_spacing (one_step 1) (array2 [[9, 2], [8, 4], [7, 1]]) = (out, Inr A) \<and>
        shape A = [] \<and> item A [] = 0.5 / sqrt ((4.15 - exp (- 2)) / (1 - exp (- 2)))) \<and>
   (shape (array3 [[[9, 2], [8, 4], [7, 1]], [[6, 3], [5, 7], [4, 2 :: real]]]) = [2, 3, 2] \<and>
      (3 :: nat) \<le> 3 \<and> (2 :: nat) \<le> 2) \<and>
   sommer_defined (potential_fit (one_step 1)
       (tolist2 (sub (array3 [[[9, 2], [8, 4], [7, 1]], [[6, 3], [5, 7], [4, 2]]]) 0))) \<and>
   sommer_defined (potential_fit (one_step 1)
       (tolist2 (sub (array3 [[[9, 2], [8, 4], [7, 1]], [[6, 3], [5, 7], [4, 2]]]) 1))) \<and>
   (\<exists>out A. calculate_spacing (one_step 1)
               (array3 [[[9, 2], [8, 4], [7, 1]], [[6, 3], [5, 7], [4, 2]]]) = (out, Inr A) \<and>
        shape A = [2] \<and>
        item A [0] = 0.5 / sqrt ((4.15 - exp (- 2)) / (1 - exp (- 2))) \<and>
        item A [1] = 0.5 / sqrt ((7.15 - exp (- 2)) / (2 - exp (- 2))))"
proof -
  let ?W = "array2 [[9, 2], [8, 4], [7, 1 :: real]]"
  let ?Ws = "array3 [[[9, 2], [8, 4], [7, 1]], [[6, 3], [5, 7], [4, 2 :: real]]]"
  have k: "returns_params (one_step 1)" by (rule returns_params_one_step)
  have h2: "shape ?W = [3, 2] \<and> (3 :: nat) \<le> 3 \<and> (2 :: nat) \<le> 2"
    by (simp add: array2_def)
  have h3: "shape ?Ws = [2, 3, 2] \<and> (3 :: nat) \<le> 3 \<and> (2 :: nat) \<le> 2"
    by (simp add: array3_def)
  have d2: "sommer_defined (potential_fit (one_step 1) (tolist2 ?W))"
    by (simp add: tolist2_array2 one_step_lattice_spacing(2) quotient_above_exp_positive)
  have d3: "sommer_defined (potential_fit (one_step 1) (tolist2 (sub ?Ws m)))" if "m < 2" for m
  proof -
    have "sommer_defined (potential_fit (one_step 1) (tolist2 (sub ?Ws 0)))"
      by (simp add: tolist2_sub_array3 one_step_lattice_spacing(2) quotient_above_exp_positive)
    moreover have "sommer_defined (potential_fit (one_step 1) (tolist2 (sub ?Ws 1)))"
      unfolding tolist2_sub_array3
      by (simp add: one_step_lattice_spacing(2) quotient_above_exp_positive)
    moreover from that have "m = 0 \<or> m = 1" by auto
    ultimately show ?thesis by blast
  qed
  have v2: "lattice_spacing (one_step 1) (tolist2 ?W)
      = 0.5 / sqrt ((4.15 - exp (- 2)) / (1 - exp (- 2)))"
    by (simp add: tolist2_array2 one_step_lattice_spacing(1))
  have v30: "lattice_spacing (one_step 1) (tolist2 (sub ?Ws 0))
      = 0.5 / sqrt ((4.15 - exp (- 2)) / (1 - exp (- 2)))"
    by (simp add: tolist2_sub_array3 one_step_lattice_spacing(1))
  have v31: "lattice_spacing (one_step 1) (tolist2 (sub ?Ws 1))
      = 0.5 / sqrt ((7.15 - exp (- 2)) / (2 - exp (- 2)))"
    unfolding tolist2_sub_array3 by (simp add: one_step_lattice_spacing(1))
  note comp = calculate_spacing_composition [OF k, of ?W 3 2 ?Ws 2 3 2]
  from comp h2 obtain out A where
    A: "calculate_spacing (one_step 1) ?W = (out, Inr A)" "shape A = []"
       "sommer_defined (potential_fit (one_step 1) (tolist2 ?W)) \<longrightarrow>
          item A [] = lattice_spacing (one_step 1) (tolist2 ?W)"
    by blast
  from comp h3 obtain out' B where
    B: "calculate_spacing (one_step 1) ?Ws = (out', Inr B)" "shape B = [2]"
       "\<forall>m<2. sommer_defined (potential_fit (one_step 1) (tolist2 (sub ?Ws m))) \<longrightarrow>
          item B [m] = lattice_spacing (one_step 1) (tolist2 (sub ?Ws m))"
    by blast
  have a: "item A [] = 0.5 / sqrt ((4.15 - exp (- 2)) / (1 - exp (- 2)))"
    using A(3) d2 v2 by simp
  have b0: "item B [0] = 0.5 / sqrt ((4.15 - exp (- 2)) / (1 - exp (- 2)))"
    using B(3) d3 [of 0] v30 by simp
  have b1: "item B [1] = 0.5 / sqrt ((7.15 - exp (- 2)) / (2 - exp (- 2)))"
    using B(3) d3 [of 1] v31 by simp
  have first: "\<exists>out A. calculate_spacing (one_step 1) ?W = (out, Inr A) \<and>
        shape A = [] \<and> item A [] = 0.5 / sqrt ((4.15 - exp (- 2)) / (1 - exp (- 2)))"
    using A(1,2) a by blast
  have second: "\<exists>out A. calculate_spacing (one_step 1) ?Ws = (out, Inr A) \<and>
        shape A = [2] \<and>
        item A [0] = 0.5 / sqrt ((4.15 - exp (- 2)) / (1 - exp (- 2))) \<and>
        item A [1] = 0.5 / sqrt ((7.15 - exp (- 2)) / (2 - exp (- 2)))"
    using B(1,2) b0 b1 by blast
  have d30: "sommer_defined (potential_fit (one_step 1) (tolist2 (sub ?Ws 0)))"
    by (rule d3) simp
  have d31: "sommer_defined (potential_fit (one_step 1) (tolist2 (sub ?Ws 1)))"
    by (rule d3) simp
  show ?thesis
    by (rule conjI [OF k conjI [OF h2 conjI [OF d2 conjI [OF first
          conjI [OF h3 conjI [OF d30 conjI [OF d31 second]]]]]]])
qed

subsection \<open>The correlator\<close>

lemma einsum_index_in_range:
  "list_all2 (<) idx ds \<Longrightarrow> einsum_index ds idx = (idx :: nat list)"
  unfolding einsum_index_def
  by (induction idx ds rule: list_all2_induct) auto

lemmas array_ops = dot_def tensordot_def swapaxes_def drop_axis_def insert_axis_def swap_def amap_def

lemma compute_correlator_staged:
  assumes g5: "shape gamma5 = [S, S]" and G: "shape Gamma = [S, S]"
    and p1: "shape prop1 = [N, S, S, C, C']" and p2: "shape prop2 = [N, S, S, C, C']"
  shows "\<exists>R. compute_correlator gamma5 prop1 prop2 Gamma = Inr R \<and> shape R = [N] \<and>
           (\<forall>x<N. item R [x] = Re (staged S C C' gamma5 Gamma prop1 prop2 x))"
proof -
  define Gamma2 where "Gamma2 = projr (dot Gamma gamma5)"
  define Gamma3 where "Gamma3 = projr (dot gamma5 Gamma)"
  define td1 where "td1 = projr (tensordot Gamma2 (amap cnj prop1) (1, 1))"
  define product1 where "product1 = projr (swapaxes td1 0 1)"
  define td2 where "td2 = projr (tensordot Gamma3 prop2 (1, 2))"
  define sw2 where "sw2 = projr (swapaxes td2 0 1)"
  define product2 where "product2 = projr (swapaxes sw2 1 2)"
  define correlator where "correlator = projr (einsum_xijab product1 product2)"
  have G2: "dot Gamma gamma5 = Inr Gamma2" "shape Gamma2 = [S, S]"
    "\<And>i k. item Gamma2 [i, k] = (\<Sum>n\<leftarrow>[0..<S]. item Gamma [i, n] * item gamma5 [n, k])"
    using g5 G by (simp_all add: Gamma2_def array_ops)
  have G3: "dot gamma5 Gamma = Inr Gamma3" "shape Gamma3 = [S, S]"
    "\<And>i k. item Gamma3 [i, k] = (\<Sum>n\<leftarrow>[0..<S]. item gamma5 [i, n] * item Gamma [n, k])"
    using g5 G by (simp_all add: Gamma3_def array_ops)
  have T1: "tensordot Gamma2 (amap cnj prop1) (1, 1) = Inr td1" "shape td1 = [S, N, S, C, C']"
    "\<And>i x l a b. item td1 [i, x, l, a, b]
        = (\<Sum>k\<leftarrow>[0..<S]. item Gamma2 [i, k] * cnj (item prop1 [x, k, l, a, b]))"
    using G2(2) p1 by (simp_all add: td1_def array_ops)
  have P1: "swapaxes td1 0 1 = Inr product1" "shape product1 = [N, S, S, C, C']"
    "\<And>i x l a b. item product1 [x, i, l, a, b] = item td1 [i, x, l, a, b]"
    using T1(2) by (simp_all add: product1_def array_ops)
  have T2: "tensordot Gamma3 prop2 (1, 2) = Inr td2" "shape td2 = [S, N, S, C, C']"
    "\<And>l x i a b. item td2 [l, x, i, a, b]
        = (\<Sum>k\<leftarrow>[0..<S]. item Gamma3 [l, k] * item prop2 [x, i, k, a, b])"
    using G3(2) p2 by (simp_all add: td2_def array_ops)
  have S2: "swapaxes td2 0 1 = Inr sw2" "shape sw2 = [N, S, S, C, C']"
    "\<And>l x i a b. item sw2 [x, l, i, a, b] = item td2 [l, x, i, a, b]"
    using T2(2) by (simp_all add: sw2_def array_ops)
  have P2: "swapaxes sw2 1 2 = Inr product2" "shape product2 = [N, S, S, C, C']"
    "\<And>l x i a b. item product2 [x, i, l, a, b] = item sw2 [x, l, i, a, b]"
    using S2(2) by (simp_all add: product2_def array_ops)
  have E: "einsum_xijab product1 product2 = Inr correlator" "shape correlator = [N]"
    "\<And>x. item correlator [x] =
       (\<Sum>i\<leftarrow>[0..<S]. \<Sum>j\<leftarrow>[0..<S]. \<Sum>a\<leftarrow>[0..<C]. \<Sum>b\<leftarrow>[0..<C'].
          item product1 (einsum_index [N, S, S, C, C'] [x, i, j, a, b]) *
          item product2 (einsum_index [N, S, S, C, C'] [x, i, j, a, b]))"
    using P1(2) P2(2)
    by (simp_all add: correlator_def einsum_xijab_def einsum_dims_def list_all2_same Let_def)
  have run: "compute_correlator gamma5 prop1 prop2 Gamma = Inr (amap Re correlator)"
    unfolding compute_correlator_def by (simp only: G2(1) G3(1) T1(1) P1(1) T2(1) S2(1) P2(1) E(1) bind_Inr)
  have val: "item correlator [x] = staged S C C' gamma5 Gamma prop1 prop2 x" if x: "x < N" for x
    unfolding E(3) staged_def
    by (intro arg_cong [where f = sum_list] map_cong refl)
       (simp add: einsum_index_in_range x P1(3) P2(3) T1(3) S2(3) T2(3) G2(3) G3(3))
  show ?thesis
    using run E(2) val by (simp add: amap_def)
qed

lemma sum_list_upt_complex: "(\<Sum>i\<leftarrow>[0..<n]. f i) = (\<Sum>i<n. (f i :: complex))"
  by (simp add: interv_sum_list_conv_sum_set_nat lessThan_atLeast0)

lemma sum_swap_pairs:
  fixes u :: "nat \<Rightarrow> nat \<Rightarrow> nat \<Rightarrow> nat \<Rightarrow> complex"
  shows "(\<Sum>a\<in>A. \<Sum>b\<in>B. \<Sum>j\<in>J. \<Sum>m\<in>M. u a b j m)
       = (\<Sum>j\<in>J. \<Sum>m\<in>M. \<Sum>a\<in>A. \<Sum>b\<in>B. u a b j m)"
proof -
  have "(\<Sum>a\<in>A. \<Sum>b\<in>B. \<Sum>j\<in>J. \<Sum>m\<in>M. u a b j m)
      = (\<Sum>a\<in>A. \<Sum>j\<in>J. \<Sum>b\<in>B. \<Sum>m\<in>M. u a b j m)"
    by (rule sum.cong [OF refl]) (rule sum.swap)
  also have "\<dots> = (\<Sum>j\<in>J. \<Sum>a\<in>A. \<Sum>b\<in>B. \<Sum>m\<in>M. u a b j m)"
    by (rule sum.swap)
  also have "\<dots> = (\<Sum>j\<in>J. \<Sum>a\<in>A. \<Sum>m\<in>M. \<Sum>b\<in>B. u a b j m)"
    by (rule sum.cong [OF refl], rule sum.cong [OF refl]) (rule sum.swap)
  also have "\<dots> = (\<Sum>j\<in>J. \<Sum>m\<in>M. \<Sum>a\<in>A. \<Sum>b\<in>B. u a b j m)"
    by (rule sum.cong [OF refl]) (rule sum.swap)
  finally show ?thesis .
qed

lemma staged_contraction:
  "Re (staged S C C' gamma5 Gamma prop1 prop2 x) = contraction S C C' gamma5 Gamma prop1 prop2 x"
proof -
  define t where "t i j l m a b =
      matmul Gamma gamma5 S i j * cnj (item prop1 [x, j, l, a, b]) *
      matmul gamma5 Gamma S l m * item prop2 [x, i, m, a, b]" for i j l m a b
  have "staged S C C' gamma5 Gamma prop1 prop2 x
      = (\<Sum>i<S. \<Sum>l<S. \<Sum>a<C. \<Sum>b<C'.
           (\<Sum>j<S. matmul Gamma gamma5 S i j * cnj (item prop1 [x, j, l, a, b])) *
           (\<Sum>m<S. matmul gamma5 Gamma S l m * item prop2 [x, i, m, a, b]))"
    by (simp add: staged_def matmul_def sum_list_upt_complex)
  also have "\<dots> = (\<Sum>i<S. \<Sum>l<S. \<Sum>a<C. \<Sum>b<C'. \<Sum>j<S. \<Sum>m<S. t i j l m a b)"
    by (simp add: sum_product t_def mult.assoc)
  also have "\<dots> = (\<Sum>i<S. \<Sum>l<S. \<Sum>j<S. \<Sum>m<S. \<Sum>a<C. \<Sum>b<C'. t i j l m a b)"
    by (rule sum.cong [OF refl], rule sum.cong [OF refl]) (rule sum_swap_pairs)
  also have "\<dots> = (\<Sum>i<S. \<Sum>j<S. \<Sum>l<S. \<Sum>m<S. \<Sum>a<C. \<Sum>b<C'. t i j l m a b)"
    by (rule sum.cong [OF refl]) (rule sum.swap)
  finally show ?thesis
    by (simp add: contraction_def t_def)
qed

text \<open>
  \<^bold>\<open>C3.\<close>  For propagators over \<open>N\<close> lattice sites with \<open>S\<close> spin and \<open>C\<close>, \<open>C'\<close> colour
  components and \<open>S \<times> S\<close> matrices \<open>Gamma\<close> and \<open>gamma5\<close>, the staged computation of
  \<open>compute_correlator\<close> (two tensor products, three swaps of axes, the elementwise
  product and sum) returns at every site the real part of the single contraction over
  the four spin and two colour indices.
\<close>

theorem compute_correlator_refines_contraction:
  assumes "shape gamma5 = [S, S]" and "shape Gamma = [S, S]"
    and "shape prop1 = [N, S, S, C, C']" and "shape prop2 = [N, S, S, C, C']"
  shows "\<exists>R. compute_correlator gamma5 prop1 prop2 Gamma = Inr R \<and> shape R = [N] \<and>
           (\<forall>x<N. item R [x] = contraction S C C' gamma5 Gamma prop1 prop2 x)"
  using compute_correlator_staged [OF assms] by (simp add: staged_contraction)

lemma example_shapes:
  "shape gamma5_chiral = [4, 4]" "shape identity4 = [4, 4]"
  "shape (const_array [n, 4, 4, 3, 3] c) = [n, 4, 4, 3, 3]"
  by (simp_all add: gamma5_chiral_def identity4_def array2_def const_array_def)

theorem compute_correlator_refines_contraction_witness:
  "shape gamma5_chiral = [4, 4] \<and> shape identity4 = [4, 4] \<and>
   shape (const_array [2, 4, 4, 3, 3] (1 :: complex)) = [2, 4, 4, 3, 3] \<and>
   (\<exists>R. compute_correlator gamma5_chiral (const_array [2, 4, 4, 3, 3] 1)
          (const_array [2, 4, 4, 3, 3] 1) identity4 = Inr R \<and> shape R = [2] \<and>
        (\<forall>x<2. item R [x] = contraction 4 3 3 gamma5_chiral identity4
             (const_array [2, 4, 4, 3, 3] 1) (const_array [2, 4, 4, 3, 3] 1) x))"
proof -
  note h = example_shapes(1) example_shapes(2) example_shapes(3) [of 2 "1 :: complex"]
  note r = compute_correlator_refines_contraction [OF h(1) h(2) h(3) h(3)]
  show ?thesis
    by (rule conjI [OF h(1) conjI [OF h(2) conjI [OF h(3) r]]])
qed

text \<open>
  \<^bold>\<open>C4\<close> (as amended).  \<open>compute_correlator\<close> returns a real array with one value per
  lattice site: on a lattice of \<open>T\<close> time slices of \<open>V\<close> spatial sites each it returns
  \<open>T * V\<close> values, the value at index \<open>t * V + s\<close> being the real part of the contraction at
  the site \<open>s\<close> of time slice \<open>t\<close>.  Nothing is summed over the spatial sites here; that is
  done by \<open>meson_spec\<close>, which reshapes the result to \<open>(T, V)\<close>.  On the lattice with one time
  slice and two spatial sites the result has two values, not one.
\<close>

theorem compute_correlator_per_site:
  assumes "shape gamma5 = [S, S]" and "shape Gamma = [S, S]"
    and "shape prop1 = [T * V, S, S, C, C']" and "shape prop2 = [T * V, S, S, C, C']"
  shows "\<exists>R. compute_correlator gamma5 prop1 prop2 Gamma = Inr R \<and> shape R = [T * V] \<and>
           (\<forall>t<T. \<forall>s<V. item R [t * V + s]
               = contraction S C C' gamma5 Gamma prop1 prop2 (t * V + s))"
proof -
  from compute_correlator_staged [OF assms] obtain R where
    R: "compute_correlator gamma5 prop1 prop2 Gamma = Inr R" "shape R = [T * V]"
       "\<forall>x<T * V. item R [x] = Re (staged S C C' gamma5 Gamma prop1 prop2 x)"
    by blast
  have "t * V + s < T * V" if "t < T" "s < V" for t s
  proof -
    have "t * V + s < t * V + V" using that by simp
    also have "\<dots> = (t + 1) * V" by simp
    also have "\<dots> \<le> T * V" using that by (intro mult_le_mono1) simp
    finally show ?thesis .
  qed
  with R show ?thesis by (simp add: staged_contraction)
qed

theorem compute_correlator_per_site_witness:
  "shape gamma5_chiral = [4, 4] \<and> shape identity4 = [4, 4] \<and>
   shape (const_array [1 * 2, 4, 4, 3, 3] (1 :: complex)) = [1 * 2, 4, 4, 3, 3] \<and>
   (\<exists>R. compute_correlator gamma5_chiral (const_array [1 * 2, 4, 4, 3, 3] 1)
          (const_array [1 * 2, 4, 4, 3, 3] 1) identity4 = Inr R \<and> shape R = [1 * 2] \<and>
        (\<forall>t<1. \<forall>s<2. item R [t * 2 + s] = contraction 4 3 3 gamma5_chiral identity4
             (const_array [1 * 2, 4, 4, 3, 3] 1) (const_array [1 * 2, 4, 4, 3, 3] 1) (t * 2 + s)))"
proof -
  note h = example_shapes(1) example_shapes(2) example_shapes(3) [of "1 * 2" "1 :: complex"]
  note r = compute_correlator_per_site [OF h(1) h(2) h(3) h(3)]
  show ?thesis
    by (rule conjI [OF h(1) conjI [OF h(2) conjI [OF h(3) r]]])
qed

theorem compute_correlator_time_series_counterexample:
  "map_sum id shape
     (compute_correlator gamma5_chiral (const_array [2, 4, 4, 3, 3] 1)
        (const_array [2, 4, 4, 3, 3] 1) identity4) = Inr [2]"
proof -
  from compute_correlator_staged [OF example_shapes(1) example_shapes(2)
      example_shapes(3) [of 2 1] example_shapes(3) [of 2 1]]
  obtain R where "compute_correlator gamma5_chiral (const_array [2, 4, 4, 3, 3] 1)
        (const_array [2, 4, 4, 3, 3] 1) identity4 = Inr R" "shape R = [2]"
    by blast
  then show ?thesis by simp
qed

subsection \<open>The meson spectrum\<close>

lemma obind_lift_Inr [simp]: "obind (lift (Inr v)) g = g v"
  by (simp add: obind_def lift_def split: prod.splits)

lemma obind_lift_Inl [simp]: "obind (lift (Inl e)) g = ([], Inl e)"
  by (simp add: obind_def lift_def)

lemma obind_print [simp]: "obind (print s) g = (s # fst (g ()), snd (g ()))"
  by (simp add: obind_def print_def split: prod.splits)

lemma obind_Inr: "m = (out, Inr v) \<Longrightarrow> obind m g = (out @ fst (g v), snd (g v))"
  by (simp add: obind_def split: prod.splits)

lemma setitem_col_column:
  assumes "shape A = [n, T, w]" "i < n" "c < w" "shape V = [T]"
  shows "\<exists>R. setitem_col A i c V = Inr R \<and> shape R = [n, T, w] \<and>
           (\<forall>i' t c'. t < T \<longrightarrow>
              item R [i', t, c'] = (if i' = i \<and> c' = c then item V [t] else item A [i', t, c']))"
proof -
  have "bc_index [T] [t] = [t]" if "t < T" for t
    using that by (intro bc_index_same) (simp add: in_range_def)
  then show ?thesis
    using assms by (simp add: setitem_col_def broadcastable_same)
qed

lemma for_each_writes:
  assumes "shape A = sh"
    and "\<And>x A'. x \<in> set xs \<Longrightarrow> shape A' = sh \<Longrightarrow>
           \<exists>A''. body x A' = Inr A'' \<and> shape A'' = sh \<and>
             (\<forall>idx. Q idx \<longrightarrow> item A'' idx = (if W x idx then val idx else item A' idx))"
  shows "\<exists>R. for_each body xs A = Inr R \<and> shape R = sh \<and>
           (\<forall>idx. Q idx \<longrightarrow>
              item R idx = (if (\<exists>x \<in> set xs. W x idx) then val idx else item A idx))"
  using assms
proof (induction xs arbitrary: A)
  case Nil
  then show ?case by simp
next
  case (Cons x xs)
  from Cons.prems(2) [of x A] Cons.prems(1) obtain A1 where
    A1: "body x A = Inr A1" "shape A1 = sh"
        "\<forall>idx. Q idx \<longrightarrow> item A1 idx = (if W x idx then val idx else item A idx)"
    by auto
  have step: "\<And>y A'. y \<in> set xs \<Longrightarrow> shape A' = sh \<Longrightarrow>
           \<exists>A''. body y A' = Inr A'' \<and> shape A'' = sh \<and>
             (\<forall>idx. Q idx \<longrightarrow> item A'' idx = (if W y idx then val idx else item A' idx))"
    using Cons.prems(2) by simp
  from Cons.IH [OF A1(2) step] obtain R where
    R: "for_each body xs A1 = Inr R" "shape R = sh"
       "\<forall>idx. Q idx \<longrightarrow>
              item R idx = (if (\<exists>x \<in> set xs. W x idx) then val idx else item A1 idx)"
    by blast
  have "for_each body (x # xs) A = Inr R"
    using A1(1) R(1) by simp
  moreover have "\<forall>idx. Q idx \<longrightarrow>
      item R idx = (if (\<exists>y \<in> set (x # xs). W y idx) then val idx else item A idx)"
    using R(3) A1(3) by auto
  ultimately show ?case using R(2) by blast
qed

lemma for_each_out_writes:
  assumes "shape A = sh"
    and "\<And>x A'. x \<in> set xs \<Longrightarrow> shape A' = sh \<Longrightarrow>
           \<exists>out A''. body x A' = (out, Inr A'') \<and> shape A'' = sh \<and>
             (\<forall>idx. Q idx \<longrightarrow> item A'' idx = (if W x idx then val idx else item A' idx))"
  shows "\<exists>out R. for_each_out body xs A = (out, Inr R) \<and> shape R = sh \<and>
           (\<forall>idx. Q idx \<longrightarrow>
              item R idx = (if (\<exists>x \<in> set xs. W x idx) then val idx else item A idx))"
  using assms
proof (induction xs arbitrary: A)
  case Nil
  then show ?case by simp
next
  case (Cons x xs)
  from Cons.prems(2) [of x A] Cons.prems(1) obtain out1 A1 where
    A1: "body x A = (out1, Inr A1)" "shape A1 = sh"
        "\<forall>idx. Q idx \<longrightarrow> item A1 idx = (if W x idx then val idx else item A idx)"
    by auto
  have step: "\<And>y A'. y \<in> set xs \<Longrightarrow> shape A' = sh \<Longrightarrow>
           \<exists>out A''. body y A' = (out, Inr A'') \<and> shape A'' = sh \<and>
             (\<forall>idx. Q idx \<longrightarrow> item A'' idx = (if W y idx then val idx else item A' idx))"
    using Cons.prems(2) by simp
  from Cons.IH [OF A1(2) step] obtain out2 R where
    R: "for_each_out body xs A1 = (out2, Inr R)" "shape R = sh"
       "\<forall>idx. Q idx \<longrightarrow>
              item R idx = (if (\<exists>x \<in> set xs. W x idx) then val idx else item A1 idx)"
    by blast
  have "for_each_out body (x # xs) A = (out1 @ out2, Inr R)"
    using R(1) by (simp add: obind_Inr [OF A1(1)])
  moreover have "\<forall>idx. Q idx \<longrightarrow>
      item R idx = (if (\<exists>y \<in> set (x # xs). W y idx) then val idx else item A idx)"
    using R(3) A1(3) by auto
  ultimately show ?case using R(2) by blast
qed

lemma momentum_prefactors_of_spatial:
  "0 < X \<Longrightarrow> 0 < Y \<Longrightarrow> 0 < Z \<Longrightarrow>
   momentum_prefactors_of [X, Y, Z] = Inr [2 * pi / real_of_int X, 2 * pi / real_of_int Y, 2 * pi / real_of_int Z]"
  by simp

lemma length_concat_map_const:
  "(\<And>x. x \<in> set xs \<Longrightarrow> length (g x) = m) \<Longrightarrow> length (concat (map g xs)) = length xs * m"
  by (induction xs) simp_all

lemma length_lattice_sites:
  "length (lattice_sites (int X) (int Y) (int Z)) = X * (Y * Z)"
  unfolding lattice_sites_def
  by (simp add: length_concat_map_const [where m = "Y * Z"] length_concat_map_const [where m = Z])

lemma sum_list_upt_real3: "(\<Sum>j\<leftarrow>[0..<3]. (g j :: real)) = (\<Sum>j<3. g j)"
  by (rule sum_list_upt)

lemma gamma_column_projection:
  assumes g5: "shape gamma5 = [S, S]" and G: "shape Gamma = [S, S]"
    and p1: "shape prop1 = [T * length sites, S, S, C, C']"
    and p2: "shape prop2 = [T * length sites, S, S, C, C']"
    and sites: "sites \<noteq> []" and mom: "length momentum = 3" and pre: "length prefactors = 3"
  shows "\<exists>W. gamma_column gamma5 prop1 prop2 (int T) sites momentum prefactors Gamma = Inr W \<and>
           shape W = [T] \<and>
           (\<forall>t<T. item W [t] =
              Re (\<Sum>s<length sites.
                    complex_of_real (contraction S C C' gamma5 Gamma prop1 prop2 (t * length sites + s)) *
                    exp (\<i> * complex_of_real
                      (\<Sum>j<3. real (sites ! s ! j) * momentum ! j * prefactors ! j))))"
proof -
  define V where "V = length sites"
  from compute_correlator_staged [OF g5 G p1 p2] obtain cc where
    cc: "compute_correlator gamma5 prop1 prop2 Gamma = Inr cc" "shape cc = [T * V]"
        "\<forall>x<T * V. item cc [x] = contraction S C C' gamma5 Gamma prop1 prop2 x"
    unfolding V_def by (auto simp: staged_contraction)
  define pos where "pos = projr (reshape cc [T, V])"
  have pos: "reshape cc [T, V] = Inr pos" "shape pos = [T, V]"
    "\<And>t s. item pos [t, s] = item cc [t * V + s]"
    using cc(2) by (simp_all add: pos_def reshape_def)
  define ph where "ph = projr (einsum_ij_j_j sites momentum prefactors)"
  have ph: "einsum_ij_j_j sites momentum prefactors = Inr ph" "shape ph = [V]"
    "\<And>s. item ph [s] = (\<Sum>j<3. real (sites ! s ! j) * momentum ! j * prefactors ! j)"
    using sites mom pre
    by (simp_all add: ph_def einsum_ij_j_j_def bc_nth_def V_def sum_list_upt_real3 del: upt.simps)
  define ex where "ex = amap (\<lambda>\<theta>. exp (\<i> * complex_of_real \<theta>)) ph"
  have ex: "shape ex = [V]" "\<And>s. item ex [s] = exp (\<i> * complex_of_real (item ph [s]))"
    using ph(2) by (simp_all add: ex_def amap_def)
  define pr where "pr = projr (einsum_ij_j pos ex)"
  have pr: "einsum_ij_j pos ex = Inr pr" "shape pr = [T]"
    "\<And>t. item pr [t] = (\<Sum>j\<leftarrow>[0..<V].
        complex_of_real (item pos (einsum_index [T, V] [t, j])) * item ex (einsum_index [V] [j]))"
    using pos(2) ex(1) by (simp_all add: pr_def einsum_ij_j_def Let_def)
  have run: "gamma_column gamma5 prop1 prop2 (int T) sites momentum prefactors Gamma
      = Inr (amap Re pr)"
    unfolding gamma_column_def Let_def
    by (simp only: cc(1) bind_Inr nat_int V_def [symmetric] pos(1) ph(1) ex_def [symmetric] pr(1))
  have val: "item pr [t] = (\<Sum>s<V. complex_of_real (contraction S C C' gamma5 Gamma prop1 prop2 (t * V + s)) *
                    exp (\<i> * complex_of_real
                      (\<Sum>j<3. real (sites ! s ! j) * momentum ! j * prefactors ! j)))"
    if t: "t < T" for t
  proof -
    have lt: "t * V + s < T * V" if "s < V" for s
    proof -
      have "t * V + s < t * V + V" using that by simp
      also have "\<dots> = (t + 1) * V" by simp
      also have "\<dots> \<le> T * V" using t by (intro mult_le_mono1) simp
      finally show ?thesis .
    qed
    have "item pr [t] = (\<Sum>s\<leftarrow>[0..<V].
        complex_of_real (contraction S C C' gamma5 Gamma prop1 prop2 (t * V + s)) *
        exp (\<i> * complex_of_real (\<Sum>j<3. real (sites ! s ! j) * momentum ! j * prefactors ! j)))"
      unfolding pr(3)
      by (intro arg_cong [where f = sum_list] map_cong refl)
         (simp add: einsum_index_in_range t pos(3) ex(2) ph(3) cc(3) lt)
    then show ?thesis by (simp add: sum_list_upt_complex)
  qed
  show ?thesis
    using run pr(2) val unfolding V_def by (simp add: amap_def)
qed

lemma in_set_enumerate0: "(j, x) \<in> set (enumerate 0 xs) \<longleftrightarrow> j < length xs \<and> x = xs ! j"
  by (auto simp: in_set_enumerate_eq)

text \<open>
  \<^bold>\<open>C5.\<close>  Let the lattice have \<open>T\<close> time slices and \<open>X\<close>, \<open>Y\<close>, \<open>Z\<close> (all positive) sites
  along the spatial axes, let the momentum have three components, let the library hold
  16 matrices, and let both files hold, under every key of the first, a propagator over
  the \<open>T * X * Y * Z\<close> sites.  Then \<open>meson_spec\<close> returns an array of shape
  \<open>(numPairs, T, 17)\<close>; for every pair, column 0 holds the time indices \<open>0, ..., T - 1\<close> and
  column \<open>j + 1\<close> the correlator of the \<open>j\<close>-th matrix, projected on the momentum.
\<close>

theorem meson_spec_shape_and_columns:
  fixes ext :: "('f, 'k) externals"
  assumes ls: "lattice_shape = [int T, int X, int Y, int Z]"
    and pos: "0 < X" "0 < Y" "0 < Z"
    and mom: "length momentum = 3"
    and g5: "shape (const_gamma5 ext) = [S, S]"
    and Gs: "concat (map snd (const_Gammas ext)) = Gs" "length Gs = 16"
      "\<forall>j<16. shape (Gs ! j) = [S, S]"
    and ks: "file_keys ext prop_file1 = ks"
    and l1: "\<forall>i<length ks. io_load_propagator ext prop_file1 (ks ! i) = Inr (P1 i) \<and>
               shape (P1 i) = [T * (X * (Y * Z)), S, S, C, C']"
    and l2: "\<forall>i<length ks. io_load_propagator ext prop_file2 (ks ! i) = Inr (P2 i) \<and>
               shape (P2 i) = [T * (X * (Y * Z)), S, S, C, C']"
  shows "\<exists>out R. meson_spec ext prop_file1 prop_file2 lattice_shape momentum = (out, Inr R) \<and>
           shape R = [length ks, T, 17] \<and>
           (\<forall>i<length ks. \<forall>t<T. item R [i, t, 0] = real t) \<and>
           (\<forall>i<length ks. \<forall>t<T. \<forall>j<16. item R [i, t, j + 1] =
              momentum_projection (X * (Y * Z))
                (contraction S C C' (const_gamma5 ext) (Gs ! j) (P1 i) (P2 i))
                (site_phase (lattice_sites (int X) (int Y) (int Z)) momentum [int X, int Y, int Z]) t)"
proof -
  define sites where "sites = lattice_sites (int X) (int Y) (int Z)"
  define prefs where "prefs = [2 * pi / real_of_int (int X), 2 * pi / real_of_int (int Y),
    2 * pi / real_of_int (int Z)]"
  define n where "n = length ks"
  define Z0 :: "real ndarray" where "Z0 = \<lparr>shape = [n, T, 17], item = (\<lambda>_. 0)\<rparr>"
  define col where "col i j =
    projr (gamma_column (const_gamma5 ext) (P1 i) (P2 i) (int T) sites momentum prefs (Gs ! j))" for i j
  define val where "val idx =
    (if idx ! 2 = 0 then real (idx ! 1) else item (col (idx ! 0) (idx ! 2 - 1)) [idx ! 1])" for idx :: "nat list"
  define Q where "Q idx \<longleftrightarrow> (\<exists>i' t c. idx = [i', t, c] \<and> t < T \<and> c < 17)" for idx :: "nat list"
  define inner where "inner i prop1 prop2 =
    (\<lambda>(j, Gamma) correlators.
        bind (gamma_column (const_gamma5 ext) prop1 prop2 (int T) sites momentum prefs Gamma)
             (setitem_col correlators i (j + 1)))" for i prop1 prop2
  define body where "body =
    (\<lambda>(i, key) correlators.
       obind (print (''Calculating correlators for propagator pair '' @ show_nat i @ ''... '')) (\<lambda>_.
       obind (lift (io_load_propagator ext prop_file1 key)) (\<lambda>prop1.
       obind (lift (io_load_propagator ext prop_file2 key)) (\<lambda>prop2.
       obind (lift (setitem_col correlators i 0 (arange 0 (nat (int T))))) (\<lambda>correlators.
       obind (lift (for_each (inner i prop1 prop2) (enumerate 0 Gs) correlators)) (\<lambda>correlators.
       obind (print ''Done!'') (\<lambda>_. ([], Inr correlators))))))))"
  have len: "length sites = X * (Y * Z)"
    unfolding sites_def by (rule length_lattice_sites)
  have ne: "sites \<noteq> []"
    using len pos by auto
  have col: "gamma_column (const_gamma5 ext) (P1 i) (P2 i) (int T) sites momentum prefs (Gs ! j)
               = Inr (col i j)"
      "shape (col i j) = [T]"
      "\<forall>t<T. item (col i j) [t] =
         momentum_projection (X * (Y * Z))
           (contraction S C C' (const_gamma5 ext) (Gs ! j) (P1 i) (P2 i))
           (site_phase sites momentum [int X, int Y, int Z]) t"
    if "i < n" "j < 16" for i j
  proof -
    have G: "shape (Gs ! j) = [S, S]" using Gs(3) that by simp
    have p1: "shape (P1 i) = [T * length sites, S, S, C, C']"
      and p2: "shape (P2 i) = [T * length sites, S, S, C, C']"
      using l1 l2 that unfolding n_def len by simp_all
    have pre: "length prefs = 3" by (simp add: prefs_def)
    from gamma_column_projection [OF g5 G p1 p2 ne mom pre] obtain W where
      W: "gamma_column (const_gamma5 ext) (P1 i) (P2 i) (int T) sites momentum prefs (Gs ! j) = Inr W"
         "shape W = [T]"
         "\<forall>t<T. item W [t] =
              Re (\<Sum>s<length sites.
                    complex_of_real (contraction S C C' (const_gamma5 ext) (Gs ! j) (P1 i) (P2 i)
                      (t * length sites + s)) *
                    exp (\<i> * complex_of_real
                      (\<Sum>j<3. real (sites ! s ! j) * momentum ! j * prefs ! j)))"
      by blast
    have ph: "(\<Sum>j<3. real (sites ! s ! j) * momentum ! j * prefs ! j)
        = site_phase sites momentum [int X, int Y, int Z] s" for s
      unfolding site_phase_def
      by (rule sum.cong [OF refl]) (auto simp: prefs_def less_Suc_eq numeral_3_eq_3)
    show "gamma_column (const_gamma5 ext) (P1 i) (P2 i) (int T) sites momentum prefs (Gs ! j)
               = Inr (col i j)"
      by (simp add: col_def W(1))
    show "shape (col i j) = [T]"
      by (simp add: col_def W(1,2))
    show "\<forall>t<T. item (col i j) [t] =
         momentum_projection (X * (Y * Z))
           (contraction S C C' (const_gamma5 ext) (Gs ! j) (P1 i) (P2 i))
           (site_phase sites momentum [int X, int Y, int Z]) t"
      using W(3) by (simp add: col_def W(1) momentum_projection_def len ph)
  qed
  have inner_run: "\<exists>R. for_each (inner i (P1 i) (P2 i)) (enumerate 0 Gs) A = Inr R \<and>
        shape R = [n, T, 17] \<and>
        (\<forall>idx. Q idx \<longrightarrow> item R idx =
           (if (\<exists>x \<in> set (enumerate 0 Gs). idx ! 0 = i \<and> idx ! 2 = fst x + 1) then val idx
            else item A idx))"
    if i: "i < n" and A: "shape A = [n, T, 17]" for i A
  proof (rule for_each_writes [OF A])
    fix x and A' :: "real ndarray"
    assume x: "x \<in> set (enumerate 0 Gs)" and A': "shape A' = [n, T, 17]"
    obtain j G where jG: "x = (j, G)" by (cases x)
    with x Gs(2) have j: "j < 16" "G = Gs ! j"
      by (simp_all add: in_set_enumerate0)
    from setitem_col_column [OF A' i _ col(2) [OF i j(1)], of "j + 1"] j(1) obtain A'' where
      A'': "setitem_col A' i (j + 1) (col i j) = Inr A''" "shape A'' = [n, T, 17]"
        "\<forall>i' t c'. t < T \<longrightarrow> item A'' [i', t, c'] =
            (if i' = i \<and> c' = j + 1 then item (col i j) [t] else item A' [i', t, c'])"
      by auto
    have "inner i (P1 i) (P2 i) x A' = Inr A''"
      using A''(1) by (simp add: inner_def jG j(2) col(1) [OF i j(1)])
    moreover have "\<forall>idx. Q idx \<longrightarrow> item A'' idx =
        (if idx ! 0 = i \<and> idx ! 2 = fst x + 1 then val idx else item A' idx)"
      using A''(3) by (auto simp: Q_def jG val_def)
    ultimately show "\<exists>A''. inner i (P1 i) (P2 i) x A' = Inr A'' \<and> shape A'' = [n, T, 17] \<and>
        (\<forall>idx. Q idx \<longrightarrow> item A'' idx =
           (if idx ! 0 = i \<and> idx ! 2 = fst x + 1 then val idx else item A' idx))"
      using A''(2) by blast
  qed
  have outer_step: "\<exists>out A''. body x A' = (out, Inr A'') \<and> shape A'' = [n, T, 17] \<and>
        (\<forall>idx. Q idx \<longrightarrow> item A'' idx = (if idx ! 0 = fst x then val idx else item A' idx))"
    if x: "x \<in> set (enumerate 0 ks)" and A': "shape A' = [n, T, 17]" for x and A' :: "real ndarray"
  proof -
    obtain i key where ik: "x = (i, key)" by (cases x)
    with x have i: "i < n" "key = ks ! i"
      by (simp_all add: in_set_enumerate0 n_def)
    have ld: "io_load_propagator ext prop_file1 key = Inr (P1 i)"
      "io_load_propagator ext prop_file2 key = Inr (P2 i)"
      using l1 l2 i unfolding n_def by simp_all
    have ar: "shape (arange 0 T) = [T]" "\<And>t. item (arange 0 T) [t] = real t"
      by (simp_all add: arange_def)
    from setitem_col_column [OF A' i(1) _ ar(1), of 0] obtain A1 where
      A1: "setitem_col A' i 0 (arange 0 T) = Inr A1" "shape A1 = [n, T, 17]"
        "\<forall>i' t c'. t < T \<longrightarrow> item A1 [i', t, c'] =
            (if i' = i \<and> c' = 0 then real t else item A' [i', t, c'])"
      by (auto simp: ar(2))
    from inner_run [OF i(1) A1(2)] obtain A2 where
      A2: "for_each (inner i (P1 i) (P2 i)) (enumerate 0 Gs) A1 = Inr A2" "shape A2 = [n, T, 17]"
        "\<forall>idx. Q idx \<longrightarrow> item A2 idx =
           (if (\<exists>x \<in> set (enumerate 0 Gs). idx ! 0 = i \<and> idx ! 2 = fst x + 1) then val idx
            else item A1 idx)"
      by blast
    have run: "body x A' = ([''Calculating correlators for propagator pair '' @ show_nat i @ ''... '',
        ''Done!''], Inr A2)"
      by (simp add: body_def ik ld A1(1) A2(1) del: show_nat.simps)
    have "item A2 idx = (if idx ! 0 = fst x then val idx else item A' idx)" if q: "Q idx" for idx
    proof -
      from q obtain i' t c where idx: "idx = [i', t, c]" "t < T" "c < 17"
        unfolding Q_def by blast
      have wr: "(\<exists>x \<in> set (enumerate 0 Gs). idx ! 0 = i \<and> idx ! 2 = fst x + 1)
          \<longleftrightarrow> i' = i \<and> 0 < c"
      proof
        assume "\<exists>x \<in> set (enumerate 0 Gs). idx ! 0 = i \<and> idx ! 2 = fst x + 1"
        then show "i' = i \<and> 0 < c" using idx(1) by auto
      next
        assume a: "i' = i \<and> 0 < c"
        then have "(c - 1, Gs ! (c - 1)) \<in> set (enumerate 0 Gs)"
          using idx(3) Gs(2) by (simp add: in_set_enumerate0)
        moreover have "idx ! 0 = i \<and> idx ! 2 = fst (c - 1, Gs ! (c - 1)) + 1"
          using a idx(1) by simp
        ultimately show "\<exists>x \<in> set (enumerate 0 Gs). idx ! 0 = i \<and> idx ! 2 = fst x + 1"
          by blast
      qed
      have "item A2 idx = (if i' = i \<and> 0 < c then val idx else item A1 idx)"
        using A2(3) [rule_format, OF q] unfolding wr .
      then show ?thesis
        using A1(3) idx(2) by (auto simp: idx(1) ik val_def)
    qed
    with run A2(2) show ?thesis by blast
  qed
  have Z0: "shape Z0 = [n, T, 17]" by (simp add: Z0_def)
  from for_each_out_writes [of Z0 "[n, T, 17]" "enumerate 0 ks" body Q "\<lambda>x idx. idx ! 0 = fst x" val,
      OF Z0 outer_step]
  obtain out R where
    R: "for_each_out body (enumerate 0 ks) Z0 = (out, Inr R)" "shape R = [n, T, 17]"
       "\<forall>idx. Q idx \<longrightarrow> item R idx =
          (if (\<exists>x \<in> set (enumerate 0 ks). idx ! 0 = fst x) then val idx else item Z0 idx)"
    by blast
  have run: "meson_spec ext prop_file1 prop_file2 lattice_shape momentum
      = for_each_out body (enumerate 0 ks) Z0"
    using pos
    by (simp add: meson_spec_def ls ks Gs(1) getitem_def zeros_def Z0_def n_def body_def inner_def
        sites_def prefs_def Let_def del: show_nat.simps)
  have cell: "item R [i, t, c] = val [i, t, c]" if "i < n" "t < T" "c < 17" for i t c
  proof -
    have "Q [i, t, c]" using that by (simp add: Q_def)
    moreover have "\<exists>x \<in> set (enumerate 0 ks). [i, t, c] ! 0 = fst x"
      using that(1) by (auto simp: in_set_enumerate0 n_def intro!: bexI [of _ "(i, ks ! i)"])
    ultimately show ?thesis using R(3) by simp
  qed
  have c0: "\<forall>i<length ks. \<forall>t<T. item R [i, t, 0] = real t"
    using cell [of _ _ 0] by (simp add: val_def n_def)
  have cj: "\<forall>i<length ks. \<forall>t<T. \<forall>j<16. item R [i, t, j + 1] =
              momentum_projection (X * (Y * Z))
                (contraction S C C' (const_gamma5 ext) (Gs ! j) (P1 i) (P2 i))
                (site_phase (lattice_sites (int X) (int Y) (int Z)) momentum [int X, int Y, int Z]) t"
    using cell [of _ _ "_ + 1"] col(3) by (simp add: val_def n_def sites_def)
  have fin: "meson_spec ext prop_file1 prop_file2 lattice_shape momentum = (out, Inr R)"
    by (simp only: run R(1))
  have sh: "shape R = [length ks, T, 17]"
    using R(2) by (simp add: n_def)
  show ?thesis
    by (rule exI [of _ out], rule exI [of _ R]) (rule conjI [OF fin conjI [OF sh conjI [OF c0 cj]]])
qed

theorem meson_spec_shape_and_columns_witness:
  "\<exists>out R. meson_spec dict_externals [(''a'', const_array [32, 4, 4, 3, 3] 1)]
       [(''a'', const_array [32, 4, 4, 3, 3] 1)] [4, 2, 2, 2] [0, 0, 0] = (out, Inr R) \<and>
     shape R = [1, 4, 17] \<and> map (\<lambda>t. item R [0, t, 0]) [0..<4] = [0, 1, 2, 3]"
proof -
  define pf :: "(string \<times> complex ndarray) list" where
    "pf = [(''a'', const_array [32, 4, 4, 3, 3] 1)]"
  have ls: "[4, 2, 2, 2] = [int 4, int 2, int 2, int 2]" by simp
  have pos: "(0::nat) < 2" by simp
  have mom: "length [0, 0, 0 :: real] = 3" by simp
  have g5: "shape (const_gamma5 dict_externals) = [4, 4]"
    by (simp add: dict_externals_def example_shapes)
  have Gs: "concat (map snd (const_Gammas dict_externals)) = replicate 16 identity4"
    "length (replicate 16 identity4) = 16"
    "\<forall>j<16. shape (replicate 16 identity4 ! j) = [4, 4]"
    by (simp_all add: dict_externals_def example_shapes)
  have ks: "file_keys dict_externals pf = [''a'']"
    by (simp add: dict_externals_def pf_def)
  have ld: "\<forall>i<length [''a''].
      io_load_propagator dict_externals pf ([''a''] ! i) = Inr (const_array [32, 4, 4, 3, 3] 1) \<and>
      shape (const_array [32, 4, 4, 3, 3] (1 :: complex)) = [4 * (2 * (2 * 2)), 4, 4, 3, 3]"
    by (simp add: dict_externals_def pf_def example_shapes)
  from meson_spec_shape_and_columns [OF ls pos pos pos mom g5 Gs ks ld ld]
  obtain out R where
    R: "meson_spec dict_externals pf pf [4, 2, 2, 2] [0, 0, 0] = (out, Inr R)"
       "shape R = [length [''a''], 4, 17]"
       "\<forall>i<length [''a'']. \<forall>t<4. item R [i, t, 0] = real t"
    by blast
  have "map (\<lambda>t. item R [0, t, 0]) [0..<4] = [0, 1, 2, 3]"
    using R(3) by (simp add: upt_4)
  with R(1,2) show ?thesis unfolding pf_def by simp
qed

end
